theory Spec2Isabelle
  imports Complex_Main
begin

section \<open>The root finders of ZOF\_CLI.py\<close>

text \<open>
  The six method functions of \<^verbatim>\<open>ZOF_CLI.py\<close> (bisection, regula falsi, secant,
  Newton-Raphson, fixed-point iteration, modified secant) and the helper
  \<^verbatim>\<open>numerical_derivative\<close>. Python floats are idealised as the reals; the one
  non-finite value the source writes itself, \<^verbatim>\<open>float("inf")\<close>, is kept. Every
  \<^verbatim>\<open>raise\<close> of the source, Python's own division by zero, the failure of the
  final \<^verbatim>\<open>return\<close> on a variable that was never assigned, and an exception
  coming out of the supplied function are values of the error type.
\<close>

subsection \<open>Data\<close>

text \<open>
  Exceptions, by their Python class and message. \<open>Raised e\<close> is an exception \<open>e\<close>
  that the supplied function raised and that propagates through the method.
\<close>

datatype 'e error =
    ValueError string
  | ZeroDivisionError string
  | UnboundLocalError string
  | TypeError string
  | Raised 'e

abbreviation InvalidBracket :: "'e error" where
  "InvalidBracket \<equiv> ValueError ''The function must have opposite signs at a and b.''"

abbreviation ZeroDenominator :: "'e error" where
  "ZeroDenominator \<equiv> ZeroDivisionError ''Zero denominator in Secant iteration.''"

abbreviation ZeroDerivative :: "'e error" where
  "ZeroDerivative \<equiv> ZeroDivisionError ''Zero derivative encountered.''"

abbreviation ZeroDerivativeApproximation :: "'e error" where
  "ZeroDerivativeApproximation \<equiv> ZeroDivisionError ''Zero derivative approximation.''"

abbreviation FloatDivisionByZero :: "'e error" where
  "FloatDivisionByZero \<equiv> ZeroDivisionError ''float division by zero''"

text \<open>An error estimate: a number, or the \<^verbatim>\<open>float("inf")\<close> of regula falsi's first pass.\<close>

datatype efloat = Fin real | PInf

fun eless :: "efloat \<Rightarrow> real \<Rightarrow> bool" where
  "eless (Fin e) t = (e < t)"
| "eless PInf t = False"

text \<open>
  A row \<^verbatim>\<open>(i, x, fx, err)\<close> of the trace; \<^verbatim>\<open>fx\<close> is \<^verbatim>\<open>None\<close> in the rows of
  fixed-point iteration. A returned tuple is \<^verbatim>\<open>(root, err, iterations, rows)\<close>.
\<close>

type_synonym row = "int \<times> real \<times> real option \<times> efloat"

type_synonym solve_result = "real \<times> efloat \<times> int \<times> row list"

definition row_iter :: "row \<Rightarrow> int" where
  "row_iter r = fst r"

definition row_x :: "row \<Rightarrow> real" where
  "row_x r = fst (snd r)"

definition row_fx :: "row \<Rightarrow> real option" where
  "row_fx r = fst (snd (snd r))"

definition row_err :: "row \<Rightarrow> efloat" where
  "row_err r = snd (snd (snd r))"

subsection \<open>Calls, division and the \<^verbatim>\<open>for\<close> loop\<close>

definition and_then :: "'e error + 'a \<Rightarrow> ('a \<Rightarrow> 'e error + 'b) \<Rightarrow> 'e error + 'b" where
  "and_then m k = (case m of Inl e \<Rightarrow> Inl e | Inr v \<Rightarrow> k v)"

text \<open>A call \<^verbatim>\<open>f(x)\<close> of the supplied function: its value, or its exception.\<close>

definition call :: "(real \<Rightarrow> 'e + real) \<Rightarrow> real \<Rightarrow> 'e error + real" where
  "call f x = (case f x of Inl e \<Rightarrow> Inl (Raised e) | Inr v \<Rightarrow> Inr v)"

text \<open>Python's \<^verbatim>\<open>p / q\<close> on floats raises when \<^verbatim>\<open>q\<close> is zero.\<close>

definition py_div :: "real \<Rightarrow> real \<Rightarrow> 'e error + real" where
  "py_div p q = (if q = 0 then Inl FloatDivisionByZero else Inr (p / q))"

text \<open>
  One pass of a loop body either leaves the function (\<^verbatim>\<open>return\<close>) or falls through to
  the next pass with the local variables it has assigned.
\<close>

datatype ('r, 's) flow = Return 'r | Continue 's

text \<open>
  \<^verbatim>\<open>for i in range(start, stop): body\<close>, from the local variables \<open>s\<close>. The outcome
  is the exception of a pass, the value a pass returned, or the local variables after
  the last pass.
\<close>

function for_range ::
  "(int \<Rightarrow> 's \<Rightarrow> 'e error + ('r, 's) flow) \<Rightarrow> int \<Rightarrow> int \<Rightarrow> 's \<Rightarrow> 'e error + ('r, 's) flow"
where
  "for_range body i stop s =
     (if i < stop then
        (case body i s of
           Inl e \<Rightarrow> Inl e
         | Inr (Return r) \<Rightarrow> Inr (Return r)
         | Inr (Continue s') \<Rightarrow> for_range body (i + 1) stop s')
      else Inr (Continue s))"
  by pat_completeness auto
termination
  by (relation "measure (\<lambda>(body, i, stop, s). nat (stop - i))") auto

declare for_range.simps [simp del]

subsection \<open>numerical\_derivative\<close>

text \<open>\<^verbatim>\<open>def numerical_derivative(f, x, h=1e-6): return (f(x+h)-f(x-h))/(2*h)\<close>\<close>

definition numerical_derivative :: "(real \<Rightarrow> 'e + real) \<Rightarrow> real \<Rightarrow> real \<Rightarrow> 'e error + real" where
  "numerical_derivative f x h =
     and_then (call f (x + h)) (\<lambda>fp.
     and_then (call f (x - h)) (\<lambda>fm.
     py_div (fp - fm) (2 * h)))"

definition default_h :: real where
  "default_h = 1 / 1000000"

subsection \<open>bisection\<close>

text \<open>
  The local variables that live across passes are \<^verbatim>\<open>a, b, fa, fb, c, err, rows\<close>;
  \<^verbatim>\<open>c\<close> and \<^verbatim>\<open>err\<close> are unassigned (\<open>None\<close>) until the first pass.
\<close>

type_synonym bisection_vars =
  "real \<times> real \<times> real \<times> real \<times> real option \<times> efloat option \<times> row list"

fun bisection_body ::
  "(real \<Rightarrow> 'e + real) \<Rightarrow> real \<Rightarrow> int \<Rightarrow> bisection_vars \<Rightarrow>
     'e error + (solve_result, bisection_vars) flow"
where
  "bisection_body f tol i (a, b, fa, fb, c0, err0, rows) =
     (let c = (a + b) / 2 in
      and_then (call f c) (\<lambda>fc.
      let err = \<bar>b - a\<bar> / 2;
          rows = rows @ [(i, c, Some fc, Fin err)]
      in if \<bar>fc\<bar> < tol \<or> err < tol then Inr (Return (c, Fin err, i, rows))
         else if fa * fc < 0 then Inr (Continue (a, c, fa, fc, Some c, Some (Fin err), rows))
         else Inr (Continue (c, b, fc, fb, Some c, Some (Fin err), rows))))"

definition bisection ::
  "(real \<Rightarrow> 'e + real) \<Rightarrow> real \<Rightarrow> real \<Rightarrow> real \<Rightarrow> int \<Rightarrow> 'e error + solve_result"
where
  "bisection f a b tol max_iter =
     and_then (call f a) (\<lambda>fa.
     and_then (call f b) (\<lambda>fb.
     if fa * fb > 0 then Inl InvalidBracket
     else
       (case for_range (bisection_body f tol) 1 (max_iter + 1) (a, b, fa, fb, None, None, []) of
          Inl e \<Rightarrow> Inl e
        | Inr (Return r) \<Rightarrow> Inr r
        | Inr (Continue (a, b, fa, fb, c, err, rows)) \<Rightarrow>
            (case c of
               None \<Rightarrow> Inl (UnboundLocalError ''c'')
             | Some c \<Rightarrow>
                 (case err of
                    None \<Rightarrow> Inl (UnboundLocalError ''err'')
                  | Some err \<Rightarrow> Inr (c, err, max_iter, rows))))))"

subsection \<open>regula\_falsi\<close>

text \<open>
  \<^verbatim>\<open>c\<close> is assigned \<^verbatim>\<open>a\<close> before the loop; \<^verbatim>\<open>err\<close> is unassigned until the first
  pass. The quotient \<^verbatim>\<open>(a*fb-b*fa)/(fb-fa)\<close> is unguarded.
\<close>

type_synonym regula_vars =
  "real \<times> real \<times> real \<times> real \<times> real \<times> efloat option \<times> row list"

fun regula_falsi_body ::
  "(real \<Rightarrow> 'e + real) \<Rightarrow> real \<Rightarrow> int \<Rightarrow> regula_vars \<Rightarrow>
     'e error + (solve_result, regula_vars) flow"
where
  "regula_falsi_body f tol i (a, b, fa, fb, c0, err0, rows) =
     (let c_prev = c0 in
      and_then (py_div (a * fb - b * fa) (fb - fa)) (\<lambda>c.
      and_then (call f c) (\<lambda>fc.
      let err = (if i > 1 then Fin \<bar>c - c_prev\<bar> else PInf);
          rows = rows @ [(i, c, Some fc, err)]
      in if \<bar>fc\<bar> < tol \<or> eless err tol then Inr (Return (c, err, i, rows))
         else if fa * fc < 0 then Inr (Continue (a, c, fa, fc, c, Some err, rows))
         else Inr (Continue (c, b, fc, fb, c, Some err, rows)))))"

definition regula_falsi ::
  "(real \<Rightarrow> 'e + real) \<Rightarrow> real \<Rightarrow> real \<Rightarrow> real \<Rightarrow> int \<Rightarrow> 'e error + solve_result"
where
  "regula_falsi f a b tol max_iter =
     and_then (call f a) (\<lambda>fa.
     and_then (call f b) (\<lambda>fb.
     if fa * fb > 0 then Inl InvalidBracket
     else
       (case for_range (regula_falsi_body f tol) 1 (max_iter + 1) (a, b, fa, fb, a, None, []) of
          Inl e \<Rightarrow> Inl e
        | Inr (Return r) \<Rightarrow> Inr r
        | Inr (Continue (a, b, fa, fb, c, err, rows)) \<Rightarrow>
            (case err of
               None \<Rightarrow> Inl (UnboundLocalError ''err'')
             | Some err \<Rightarrow> Inr (c, err, max_iter, rows)))))"

subsection \<open>secant\<close>

text \<open>The local variables are \<^verbatim>\<open>x0, x1, x2, err, rows\<close>; \<^verbatim>\<open>x2\<close> and \<^verbatim>\<open>err\<close> start unassigned.\<close>

type_synonym secant_vars = "real \<times> real \<times> real option \<times> efloat option \<times> row list"

fun secant_body ::
  "(real \<Rightarrow> 'e + real) \<Rightarrow> real \<Rightarrow> int \<Rightarrow> secant_vars \<Rightarrow>
     'e error + (solve_result, secant_vars) flow"
where
  "secant_body f tol i (x0, x1, x2o, err0, rows) =
     and_then (call f x0) (\<lambda>f0.
     and_then (call f x1) (\<lambda>f1.
     if f1 - f0 = 0 then Inl ZeroDenominator
     else
       let x2 = x1 - f1 * (x1 - x0) / (f1 - f0);
           err = \<bar>x2 - x1\<bar>
       in and_then (call f x2) (\<lambda>f2.
          let rows = rows @ [(i, x2, Some f2, Fin err)]
          in and_then (call f x2) (\<lambda>f2'.
             if \<bar>f2'\<bar> < tol \<or> err < tol then Inr (Return (x2, Fin err, i, rows))
             else Inr (Continue (x1, x2, Some x2, Some (Fin err), rows))))))"

definition secant ::
  "(real \<Rightarrow> 'e + real) \<Rightarrow> real \<Rightarrow> real \<Rightarrow> real \<Rightarrow> int \<Rightarrow> 'e error + solve_result"
where
  "secant f x0 x1 tol max_iter =
     (case for_range (secant_body f tol) 1 (max_iter + 1) (x0, x1, None, None, []) of
        Inl e \<Rightarrow> Inl e
      | Inr (Return r) \<Rightarrow> Inr r
      | Inr (Continue (x0, x1, x2, err, rows)) \<Rightarrow>
          (case x2 of
             None \<Rightarrow> Inl (UnboundLocalError ''x2'')
           | Some x2 \<Rightarrow>
               (case err of
                  None \<Rightarrow> Inl (UnboundLocalError ''err'')
                | Some err \<Rightarrow> Inr (x2, err, max_iter, rows))))"

subsection \<open>newton\_raphson\<close>

text \<open>The local variables are \<^verbatim>\<open>x, err, rows\<close>; \<^verbatim>\<open>err\<close> starts unassigned.\<close>

type_synonym point_vars = "real \<times> efloat option \<times> row list"

fun newton_raphson_body ::
  "(real \<Rightarrow> 'e + real) \<Rightarrow> real \<Rightarrow> int \<Rightarrow> point_vars \<Rightarrow>
     'e error + (solve_result, point_vars) flow"
where
  "newton_raphson_body f tol i (x, err0, rows) =
     and_then (call f x) (\<lambda>fx.
     and_then (numerical_derivative f x default_h) (\<lambda>dfx.
     if dfx = 0 then Inl ZeroDerivative
     else
       let x_new = x - fx / dfx;
           err = \<bar>x_new - x\<bar>
       in and_then (call f x_new) (\<lambda>fn.
          let rows = rows @ [(i, x_new, Some fn, Fin err)]
          in and_then (call f x_new) (\<lambda>fn'.
             if \<bar>fn'\<bar> < tol \<or> err < tol then Inr (Return (x_new, Fin err, i, rows))
             else Inr (Continue (x_new, Some (Fin err), rows))))))"

definition newton_raphson ::
  "(real \<Rightarrow> 'e + real) \<Rightarrow> real \<Rightarrow> real \<Rightarrow> int \<Rightarrow> 'e error + solve_result"
where
  "newton_raphson f x0 tol max_iter =
     (case for_range (newton_raphson_body f tol) 1 (max_iter + 1) (x0, None, []) of
        Inl e \<Rightarrow> Inl e
      | Inr (Return r) \<Rightarrow> Inr r
      | Inr (Continue (x, err, rows)) \<Rightarrow>
          (case err of
             None \<Rightarrow> Inl (UnboundLocalError ''err'')
           | Some err \<Rightarrow> Inr (x, err, max_iter, rows)))"

subsection \<open>fixed\_point\_iteration\<close>

fun fixed_point_iteration_body ::
  "(real \<Rightarrow> 'e + real) \<Rightarrow> real \<Rightarrow> int \<Rightarrow> point_vars \<Rightarrow>
     'e error + (solve_result, point_vars) flow"
where
  "fixed_point_iteration_body g tol i (x, err0, rows) =
     and_then (call g x) (\<lambda>x_new.
     let err = \<bar>x_new - x\<bar>;
         rows = rows @ [(i, x_new, None, Fin err)]
     in if err < tol then Inr (Return (x_new, Fin err, i, rows))
        else Inr (Continue (x_new, Some (Fin err), rows)))"

definition fixed_point_iteration ::
  "(real \<Rightarrow> 'e + real) \<Rightarrow> real \<Rightarrow> real \<Rightarrow> int \<Rightarrow> 'e error + solve_result"
where
  "fixed_point_iteration g x0 tol max_iter =
     (case for_range (fixed_point_iteration_body g tol) 1 (max_iter + 1) (x0, None, []) of
        Inl e \<Rightarrow> Inl e
      | Inr (Return r) \<Rightarrow> Inr r
      | Inr (Continue (x, err, rows)) \<Rightarrow>
          (case err of
             None \<Rightarrow> Inl (UnboundLocalError ''err'')
           | Some err \<Rightarrow> Inr (x, err, max_iter, rows)))"

subsection \<open>modified\_secant\<close>

text \<open>
  \<^verbatim>\<open>(f(x+delta*x)-fx)/(delta*x) if x!=0 else numerical_derivative(f,x)\<close>: the quotient
  is guarded against \<^verbatim>\<open>x == 0\<close> only.
\<close>

fun modified_secant_body ::
  "(real \<Rightarrow> 'e + real) \<Rightarrow> real \<Rightarrow> real \<Rightarrow> int \<Rightarrow> point_vars \<Rightarrow>
     'e error + (solve_result, point_vars) flow"
where
  "modified_secant_body f delta tol i (x, err0, rows) =
     and_then (call f x) (\<lambda>fx.
     and_then (if x \<noteq> 0
          then and_then (call f (x + delta * x)) (\<lambda>fd. py_div (fd - fx) (delta * x))
          else numerical_derivative f x default_h) (\<lambda>dfx_approx.
     if dfx_approx = 0 then Inl ZeroDerivativeApproximation
     else
       let x_new = x - fx / dfx_approx;
           err = \<bar>x_new - x\<bar>
       in and_then (call f x_new) (\<lambda>fn.
          let rows = rows @ [(i, x_new, Some fn, Fin err)]
          in and_then (call f x_new) (\<lambda>fn'.
             if \<bar>fn'\<bar> < tol \<or> err < tol then Inr (Return (x_new, Fin err, i, rows))
             else Inr (Continue (x_new, Some (Fin err), rows))))))"

definition modified_secant ::
  "(real \<Rightarrow> 'e + real) \<Rightarrow> real \<Rightarrow> real \<Rightarrow> real \<Rightarrow> int \<Rightarrow> 'e error + solve_result"
where
  "modified_secant f x0 delta tol max_iter =
     (case for_range (modified_secant_body f delta tol) 1 (max_iter + 1) (x0, None, []) of
        Inl e \<Rightarrow> Inl e
      | Inr (Return r) \<Rightarrow> Inr r
      | Inr (Continue (x, err, rows)) \<Rightarrow>
          (case err of
             None \<Rightarrow> Inl (UnboundLocalError ''err'')
           | Some err \<Rightarrow> Inr (x, err, max_iter, rows)))"

subsection \<open>Calling a method function\<close>

text \<open>
  The signatures are \<^verbatim>\<open>bisection(f,a,b,tol,max_iter=100)\<close>,
  \<^verbatim>\<open>regula_falsi(f,a,b,tol,max_iter=100)\<close>, \<^verbatim>\<open>secant(f,x0,x1,tol,max_iter=100)\<close>,
  \<^verbatim>\<open>newton_raphson(f,x0,tol,max_iter=100)\<close>,
  \<^verbatim>\<open>fixed_point_iteration(g,x0,tol,max_iter=100)\<close> and
  \<^verbatim>\<open>modified_secant(f,x0,delta,tol,max_iter=100)\<close>. A call may leave out an
  argument (\<open>None\<close>): Python fills it from the default of the signature, or raises
  a \<^verbatim>\<open>TypeError\<close> when the signature has none.
\<close>

definition missing :: "string \<Rightarrow> string \<Rightarrow> 'e error" where
  "missing fn arg = TypeError (fn @ ''() missing 1 required positional argument: '' @ arg)"

definition missing2 :: "string \<Rightarrow> string \<Rightarrow> string \<Rightarrow> 'e error" where
  "missing2 fn arg1 arg2 =
     TypeError (fn @ ''() missing 2 required positional arguments: '' @ arg1 @ '' and '' @ arg2)"

definition default_max_iter :: "int option \<Rightarrow> int" where
  "default_max_iter max_iter = (case max_iter of None \<Rightarrow> 100 | Some n \<Rightarrow> n)"

definition bisection_call ::
  "(real \<Rightarrow> 'e + real) \<Rightarrow> real \<Rightarrow> real \<Rightarrow> real option \<Rightarrow> int option \<Rightarrow> 'e error + solve_result"
where
  "bisection_call f a b tol max_iter =
     (case tol of
        None \<Rightarrow> Inl (missing ''bisection'' ''tol'')
      | Some t \<Rightarrow> bisection f a b t (default_max_iter max_iter))"

definition regula_falsi_call ::
  "(real \<Rightarrow> 'e + real) \<Rightarrow> real \<Rightarrow> real \<Rightarrow> real option \<Rightarrow> int option \<Rightarrow> 'e error + solve_result"
where
  "regula_falsi_call f a b tol max_iter =
     (case tol of
        None \<Rightarrow> Inl (missing ''regula_falsi'' ''tol'')
      | Some t \<Rightarrow> regula_falsi f a b t (default_max_iter max_iter))"

definition secant_call ::
  "(real \<Rightarrow> 'e + real) \<Rightarrow> real \<Rightarrow> real \<Rightarrow> real option \<Rightarrow> int option \<Rightarrow> 'e error + solve_result"
where
  "secant_call f x0 x1 tol max_iter =
     (case tol of
        None \<Rightarrow> Inl (missing ''secant'' ''tol'')
      | Some t \<Rightarrow> secant f x0 x1 t (default_max_iter max_iter))"

definition newton_raphson_call ::
  "(real \<Rightarrow> 'e + real) \<Rightarrow> real \<Rightarrow> real option \<Rightarrow> int option \<Rightarrow> 'e error + solve_result"
where
  "newton_raphson_call f x0 tol max_iter =
     (case tol of
        None \<Rightarrow> Inl (missing ''newton_raphson'' ''tol'')
      | Some t \<Rightarrow> newton_raphson f x0 t (default_max_iter max_iter))"

definition fixed_point_iteration_call ::
  "(real \<Rightarrow> 'e + real) \<Rightarrow> real \<Rightarrow> real option \<Rightarrow> int option \<Rightarrow> 'e error + solve_result"
where
  "fixed_point_iteration_call g x0 tol max_iter =
     (case tol of
        None \<Rightarrow> Inl (missing ''fixed_point_iteration'' ''tol'')
      | Some t \<Rightarrow> fixed_point_iteration g x0 t (default_max_iter max_iter))"

definition modified_secant_call ::
  "(real \<Rightarrow> 'e + real) \<Rightarrow> real \<Rightarrow> real option \<Rightarrow> real option \<Rightarrow> int option \<Rightarrow>
     'e error + solve_result"
where
  "modified_secant_call f x0 delta tol max_iter =
     (case delta of
        None \<Rightarrow>
          (case tol of
             None \<Rightarrow> Inl (missing2 ''modified_secant'' ''delta'' ''tol'')
           | Some t \<Rightarrow> Inl (missing ''modified_secant'' ''delta''))
      | Some d \<Rightarrow>
          (case tol of
             None \<Rightarrow> Inl (missing ''modified_secant'' ''tol'')
           | Some t \<Rightarrow> modified_secant f x0 d t (default_max_iter max_iter)))"

section \<open>The methods over a callable with hidden state\<close>

text \<open>
  A Python callable may read and change state that the method never sees: globals, a
  clock, a random generator. Here a callable takes that state \<open>w\<close> and returns its
  result with the new state, and each method threads the state through its calls of the
  callable, in the order of the source. The bodies are those of the functions above, line
  by line; only the calls differ.
\<close>

type_synonym ('w, 'e, 'a) io = "'w \<Rightarrow> ('e error + 'a) \<times> 'w"

type_synonym ('w, 'e) callable = "real \<Rightarrow> 'w \<Rightarrow> ('e + real) \<times> 'w"

definition io_unit :: "'e error + 'a \<Rightarrow> ('w, 'e, 'a) io" where
  "io_unit r = (\<lambda>w. (r, w))"

definition io_then :: "('w, 'e, 'a) io \<Rightarrow> ('a \<Rightarrow> ('w, 'e, 'b) io) \<Rightarrow> ('w, 'e, 'b) io" where
  "io_then m k = (\<lambda>w. case m w of (Inl e, w') \<Rightarrow> (Inl e, w') | (Inr v, w') \<Rightarrow> k v w')"

definition io_map :: "('e error + 'a \<Rightarrow> 'e error + 'b) \<Rightarrow> ('w, 'e, 'a) io \<Rightarrow> ('w, 'e, 'b) io" where
  "io_map h m = (\<lambda>w. case m w of (r, w') \<Rightarrow> (h r, w'))"

definition io_call :: "('w, 'e) callable \<Rightarrow> real \<Rightarrow> ('w, 'e, real) io" where
  "io_call f x = (\<lambda>w. case f x w of (Inl e, w') \<Rightarrow> (Inl (Raised e), w') | (Inr v, w') \<Rightarrow> (Inr v, w'))"

function for_range_io ::
  "(int \<Rightarrow> 's \<Rightarrow> ('w, 'e, ('r, 's) flow) io) \<Rightarrow> int \<Rightarrow> int \<Rightarrow> 's \<Rightarrow> ('w, 'e, ('r, 's) flow) io"
where
  "for_range_io body i stop s w =
     (if i < stop then
        (case body i s w of
           (Inl e, w') \<Rightarrow> (Inl e, w')
         | (Inr (Return r), w') \<Rightarrow> (Inr (Return r), w')
         | (Inr (Continue s'), w') \<Rightarrow> for_range_io body (i + 1) stop s' w')
      else (Inr (Continue s), w))"
  by pat_completeness auto

termination
  by (relation "measure (\<lambda>(body, i, stop, s, w). nat (stop - i))") auto

declare for_range_io.simps [simp del]

definition numerical_derivative_io :: "('w, 'e) callable \<Rightarrow> real \<Rightarrow> real \<Rightarrow> ('w, 'e, real) io" where
  "numerical_derivative_io f x h =
     io_then (io_call f (x + h)) (\<lambda>fp.
     io_then (io_call f (x - h)) (\<lambda>fm.
     io_unit (py_div (fp - fm) (2 * h))))"

fun bisection_body_io ::
  "('w, 'e) callable \<Rightarrow> real \<Rightarrow> int \<Rightarrow> bisection_vars \<Rightarrow>
     ('w, 'e, (solve_result, bisection_vars) flow) io"
where
  "bisection_body_io f tol i (a, b, fa, fb, c0, err0, rows) =
     (let c = (a + b) / 2 in
      io_then (io_call f c) (\<lambda>fc.
      let err = \<bar>b - a\<bar> / 2;
          rows = rows @ [(i, c, Some fc, Fin err)]
      in if \<bar>fc\<bar> < tol \<or> err < tol then io_unit (Inr (Return (c, Fin err, i, rows)))
         else if fa * fc < 0
           then io_unit (Inr (Continue (a, c, fa, fc, Some c, Some (Fin err), rows)))
           else io_unit (Inr (Continue (c, b, fc, fb, Some c, Some (Fin err), rows)))))"

definition bisection_io ::
  "('w, 'e) callable \<Rightarrow> real \<Rightarrow> real \<Rightarrow> real \<Rightarrow> int \<Rightarrow> ('w, 'e, solve_result) io"
where
  "bisection_io f a b tol max_iter =
     io_then (io_call f a) (\<lambda>fa.
     io_then (io_call f b) (\<lambda>fb.
     if fa * fb > 0 then io_unit (Inl InvalidBracket)
     else
       io_map (\<lambda>out. case out of
          Inl e \<Rightarrow> Inl e
        | Inr (Return r) \<Rightarrow> Inr r
        | Inr (Continue (a, b, fa, fb, c, err, rows)) \<Rightarrow>
            (case c of
               None \<Rightarrow> Inl (UnboundLocalError ''c'')
             | Some c \<Rightarrow>
                 (case err of
                    None \<Rightarrow> Inl (UnboundLocalError ''err'')
                  | Some err \<Rightarrow> Inr (c, err, max_iter, rows))))
         (for_range_io (bisection_body_io f tol) 1 (max_iter + 1) (a, b, fa, fb, None, None, []))))"

fun regula_falsi_body_io ::
  "('w, 'e) callable \<Rightarrow> real \<Rightarrow> int \<Rightarrow> regula_vars \<Rightarrow>
     ('w, 'e, (solve_result, regula_vars) flow) io"
where
  "regula_falsi_body_io f tol i (a, b, fa, fb, c0, err0, rows) =
     (let c_prev = c0 in
      io_then (io_unit (py_div (a * fb - b * fa) (fb - fa))) (\<lambda>c.
      io_then (io_call f c) (\<lambda>fc.
      let err = (if i > 1 then Fin \<bar>c - c_prev\<bar> else PInf);
          rows = rows @ [(i, c, Some fc, err)]
      in if \<bar>fc\<bar> < tol \<or> eless err tol then io_unit (Inr (Return (c, err, i, rows)))
         else if fa * fc < 0 then io_unit (Inr (Continue (a, c, fa, fc, c, Some err, rows)))
         else io_unit (Inr (Continue (c, b, fc, fb, c, Some err, rows))))))"

definition regula_falsi_io ::
  "('w, 'e) callable \<Rightarrow> real \<Rightarrow> real \<Rightarrow> real \<Rightarrow> int \<Rightarrow> ('w, 'e, solve_result) io"
where
  "regula_falsi_io f a b tol max_iter =
     io_then (io_call f a) (\<lambda>fa.
     io_then (io_call f b) (\<lambda>fb.
     if fa * fb > 0 then io_unit (Inl InvalidBracket)
     else
       io_map (\<lambda>out. case out of
          Inl e \<Rightarrow> Inl e
        | Inr (Return r) \<Rightarrow> Inr r
        | Inr (Continue (a, b, fa, fb, c, err, rows)) \<Rightarrow>
            (case err of
               None \<Rightarrow> Inl (UnboundLocalError ''err'')
             | Some err \<Rightarrow> Inr (c, err, max_iter, rows)))
         (for_range_io (regula_falsi_body_io f tol) 1 (max_iter + 1) (a, b, fa, fb, a, None, []))))"

fun secant_body_io ::
  "('w, 'e) callable \<Rightarrow> real \<Rightarrow> int \<Rightarrow> secant_vars \<Rightarrow>
     ('w, 'e, (solve_result, secant_vars) flow) io"
where
  "secant_body_io f tol i (x0, x1, x2o, err0, rows) =
     io_then (io_call f x0) (\<lambda>f0.
     io_then (io_call f x1) (\<lambda>f1.
     if f1 - f0 = 0 then io_unit (Inl ZeroDenominator)
     else
       let x2 = x1 - f1 * (x1 - x0) / (f1 - f0);
           err = \<bar>x2 - x1\<bar>
       in io_then (io_call f x2) (\<lambda>f2.
          let rows = rows @ [(i, x2, Some f2, Fin err)]
          in io_then (io_call f x2) (\<lambda>f2'.
             if \<bar>f2'\<bar> < tol \<or> err < tol then io_unit (Inr (Return (x2, Fin err, i, rows)))
             else io_unit (Inr (Continue (x1, x2, Some x2, Some (Fin err), rows)))))))"

definition secant_io ::
  "('w, 'e) callable \<Rightarrow> real \<Rightarrow> real \<Rightarrow> real \<Rightarrow> int \<Rightarrow> ('w, 'e, solve_result) io"
where
  "secant_io f x0 x1 tol max_iter =
     io_map (\<lambda>out. case out of
        Inl e \<Rightarrow> Inl e
      | Inr (Return r) \<Rightarrow> Inr r
      | Inr (Continue (x0, x1, x2, err, rows)) \<Rightarrow>
          (case x2 of
             None \<Rightarrow> Inl (UnboundLocalError ''x2'')
           | Some x2 \<Rightarrow>
               (case err of
                  None \<Rightarrow> Inl (UnboundLocalError ''err'')
                | Some err \<Rightarrow> Inr (x2, err, max_iter, rows))))
       (for_range_io (secant_body_io f tol) 1 (max_iter + 1) (x0, x1, None, None, []))"

fun newton_raphson_body_io ::
  "('w, 'e) callable \<Rightarrow> real \<Rightarrow> int \<Rightarrow> point_vars \<Rightarrow>
     ('w, 'e, (solve_result, point_vars) flow) io"
where
  "newton_raphson_body_io f tol i (x, err0, rows) =
     io_then (io_call f x) (\<lambda>fx.
     io_then (numerical_derivative_io f x default_h) (\<lambda>dfx.
     if dfx = 0 then io_unit (Inl ZeroDerivative)
     else
       let x_new = x - fx / dfx;
           err = \<bar>x_new - x\<bar>
       in io_then (io_call f x_new) (\<lambda>fn.
          let rows = rows @ [(i, x_new, Some fn, Fin err)]
          in io_then (io_call f x_new) (\<lambda>fn'.
             if \<bar>fn'\<bar> < tol \<or> err < tol then io_unit (Inr (Return (x_new, Fin err, i, rows)))
             else io_unit (Inr (Continue (x_new, Some (Fin err), rows)))))))"

definition newton_raphson_io ::
  "('w, 'e) callable \<Rightarrow> real \<Rightarrow> real \<Rightarrow> int \<Rightarrow> ('w, 'e, solve_result) io"
where
  "newton_raphson_io f x0 tol max_iter =
     io_map (\<lambda>out. case out of
        Inl e \<Rightarrow> Inl e
      | Inr (Return r) \<Rightarrow> Inr r
      | Inr (Continue (x, err, rows)) \<Rightarrow>
          (case err of
             None \<Rightarrow> Inl (UnboundLocalError ''err'')
           | Some err \<Rightarrow> Inr (x, err, max_iter, rows)))
       (for_range_io (newton_raphson_body_io f tol) 1 (max_iter + 1) (x0, None, []))"

fun fixed_point_iteration_body_io ::
  "('w, 'e) callable \<Rightarrow> real \<Rightarrow> int \<Rightarrow> point_vars \<Rightarrow>
     ('w, 'e, (solve_result, point_vars) flow) io"
where
  "fixed_point_iteration_body_io g tol i (x, err0, rows) =
     io_then (io_call g x) (\<lambda>x_new.
     let err = \<bar>x_new - x\<bar>;
         rows = rows @ [(i, x_new, None, Fin err)]
     in if err < tol then io_unit (Inr (Return (x_new, Fin err, i, rows)))
        else io_unit (Inr (Continue (x_new, Some (Fin err), rows))))"

definition fixed_point_iteration_io ::
  "('w, 'e) callable \<Rightarrow> real \<Rightarrow> real \<Rightarrow> int \<Rightarrow> ('w, 'e, solve_result) io"
where
  "fixed_point_iteration_io g x0 tol max_iter =
     io_map (\<lambda>out. case out of
        Inl e \<Rightarrow> Inl e
      | Inr (Return r) \<Rightarrow> Inr r
      | Inr (Continue (x, err, rows)) \<Rightarrow>
          (case err of
             None \<Rightarrow> Inl (UnboundLocalError ''err'')
           | Some err \<Rightarrow> Inr (x, err, max_iter, rows)))
       (for_range_io (fixed_point_iteration_body_io g tol) 1 (max_iter + 1) (x0, None, []))"

fun modified_secant_body_io ::
  "('w, 'e) callable \<Rightarrow> real \<Rightarrow> real \<Rightarrow> int \<Rightarrow> point_vars \<Rightarrow>
     ('w, 'e, (solve_result, point_vars) flow) io"
where
  "modified_secant_body_io f delta tol i (x, err0, rows) =
     io_then (io_call f x) (\<lambda>fx.
     io_then (if x \<noteq> 0
          then io_then (io_call f (x + delta * x)) (\<lambda>fd. io_unit (py_div (fd - fx) (delta * x)))
          else numerical_derivative_io f x default_h) (\<lambda>dfx_approx.
     if dfx_approx = 0 then io_unit (Inl ZeroDerivativeApproximation)
     else
       let x_new = x - fx / dfx_approx;
           err = \<bar>x_new - x\<bar>
       in io_then (io_call f x_new) (\<lambda>fn.
          let rows = rows @ [(i, x_new, Some fn, Fin err)]
          in io_then (io_call f x_new) (\<lambda>fn'.
             if \<bar>fn'\<bar> < tol \<or> err < tol then io_unit (Inr (Return (x_new, Fin err, i, rows)))
             else io_unit (Inr (Continue (x_new, Some (Fin err), rows)))))))"

definition modified_secant_io ::
  "('w, 'e) callable \<Rightarrow> real \<Rightarrow> real \<Rightarrow> real \<Rightarrow> int \<Rightarrow> ('w, 'e, solve_result) io"
where
  "modified_secant_io f x0 delta tol max_iter =
     io_map (\<lambda>out. case out of
        Inl e \<Rightarrow> Inl e
      | Inr (Return r) \<Rightarrow> Inr r
      | Inr (Continue (x, err, rows)) \<Rightarrow>
          (case err of
             None \<Rightarrow> Inl (UnboundLocalError ''err'')
           | Some err \<Rightarrow> Inr (x, err, max_iter, rows)))
       (for_range_io (modified_secant_body_io f delta tol) 1 (max_iter + 1) (x0, None, []))"

text \<open>
  A pure callable: its result does not depend on the state, and it leaves the state as
  it was. \<open>pure_callable h\<close> is the callable of a function \<open>h\<close>; \<open>ticking\<close> is a
  callable that is not pure (it counts its calls and lets the count into its result).
\<close>

definition pure_callable :: "(real \<Rightarrow> 'e + real) \<Rightarrow> ('w, 'e) callable" where
  "pure_callable h = (\<lambda>x w. (h x, w))"

definition is_pure :: "('w, 'e) callable \<Rightarrow> bool" where
  "is_pure f \<longleftrightarrow> (\<forall>x w w'. fst (f x w) = fst (f x w') \<and> snd (f x w) = w)"

definition ticking :: "(nat, unit) callable" where
  "ticking x w = (Inr (x - real w), Suc w)"

section \<open>Properties of a run\<close>

text \<open>
  The two stopping tests of the source on a recorded row: \<^verbatim>\<open>abs(fx)<tol or err<tol\<close>
  and, for fixed-point iteration, \<^verbatim>\<open>err<tol\<close>. \<open>residual_hit\<close> is the first test
  read on the supplied function itself, at the recorded iterate.
\<close>

definition residual_or_error :: "real \<Rightarrow> row \<Rightarrow> bool" where
  "residual_or_error tol r \<longleftrightarrow>
     (case row_fx r of Some v \<Rightarrow> \<bar>v\<bar> < tol | None \<Rightarrow> False) \<or> eless (row_err r) tol"

definition error_only :: "real \<Rightarrow> row \<Rightarrow> bool" where
  "error_only tol r \<longleftrightarrow> eless (row_err r) tol"


text \<open>
  A row records the value of the supplied function at its iterate (\<open>recorded\<close>), or
  no function value at all (\<open>unrecorded\<close>).
\<close>

definition recorded :: "(real \<Rightarrow> 'e + real) \<Rightarrow> row \<Rightarrow> bool" where
  "recorded f r \<longleftrightarrow> (case row_fx r of Some v \<Rightarrow> f (row_x r) = Inr v | None \<Rightarrow> False)"

definition unrecorded :: "row \<Rightarrow> bool" where
  "unrecorded r \<longleftrightarrow> row_fx r = None"

text \<open>
  The loop invariant shared by the six methods, at the start of pass \<open>j\<close>: the rows
  are those of passes \<open>1\<close> to \<open>j - 1\<close>, none of them met the stopping test \<open>conv\<close>, and
  the variables the final \<^verbatim>\<open>return\<close> reads hold the values of the last row (they are
  unassigned while there is no row). \<open>returned_at\<close> describes the tuple a pass returns,
  \<open>run_ok\<close> the tuple a call returns.
\<close>

definition traced ::
  "(row \<Rightarrow> bool) \<Rightarrow> (row \<Rightarrow> bool) \<Rightarrow> int \<Rightarrow> real option \<Rightarrow> efloat option \<Rightarrow> row list \<Rightarrow> bool"
where
  "traced conv P j xo eo rows \<longleftrightarrow>
     1 \<le> j \<and> map row_iter rows = [1..j - 1] \<and> (\<forall>r\<in>set rows. \<not> conv r \<and> P r) \<and>
     (rows = [] \<longrightarrow> eo = None) \<and>
     (rows \<noteq> [] \<longrightarrow> xo = Some (row_x (last rows)) \<and> eo = Some (row_err (last rows)))"

fun returned_at ::
  "(row \<Rightarrow> bool) \<Rightarrow> (row \<Rightarrow> bool) \<Rightarrow> int \<Rightarrow> row list \<Rightarrow> solve_result \<Rightarrow> bool"
where
  "returned_at conv P j rows0 (x, e, n, rows) \<longleftrightarrow>
     n = j \<and>
     (\<exists>r. rows = rows0 @ [r] \<and> row_iter r = j \<and> conv r \<and> P r \<and> x = row_x r \<and> e = row_err r)"

fun run_ok :: "(row \<Rightarrow> bool) \<Rightarrow> (row \<Rightarrow> bool) \<Rightarrow> int \<Rightarrow> solve_result \<Rightarrow> bool" where
  "run_ok conv P max_iter (x, e, n, rows) \<longleftrightarrow>
     1 \<le> n \<and> n \<le> max_iter \<and> map row_iter rows = [1..n] \<and> rows \<noteq> [] \<and>
     (\<forall>r\<in>set rows. P r) \<and>
     (\<forall>r\<in>set (butlast rows). \<not> conv r) \<and> (n < max_iter \<longrightarrow> conv (last rows)) \<and>
     x = row_x (last rows) \<and> e = row_err (last rows)"






fun one_row_per_pass :: "solve_result \<Rightarrow> bool" where
  "one_row_per_pass (x, e, n, rows) \<longleftrightarrow> int (length rows) = n \<and> map row_iter rows = [1..n]"










subsection \<open>Concrete inputs\<close>

definition f_sq2 :: "real \<Rightarrow> unit + real" where
  "f_sq2 x = Inr (x * x - 2)"

definition f_lin :: "real \<Rightarrow> unit + real" where
  "f_lin x = Inr (3 * x - 1)"


definition g_half :: "real \<Rightarrow> unit + real" where
  "g_half x = Inr (x / 2 + 1)"


section \<open>Proofs\<close>

subsection \<open>The loop\<close>

lemma for_range_unfold_lt:
  "i < stop \<Longrightarrow> for_range body i stop s =
     (case body i s of
        Inl e \<Rightarrow> Inl e
      | Inr (Return r) \<Rightarrow> Inr (Return r)
      | Inr (Continue s') \<Rightarrow> for_range body (i + 1) stop s')"
  by (subst for_range.simps) simp

lemma for_range_unfold_ge:
  "\<not> i < stop \<Longrightarrow> for_range body i stop s = Inr (Continue s)"
  by (subst for_range.simps) simp

lemma for_range_Continue:
  assumes "for_range body i stop s = Inr (Continue s')"
    and "I i s"
    and "\<And>j t t'. i \<le> j \<Longrightarrow> j < stop \<Longrightarrow> I j t \<Longrightarrow> body j t = Inr (Continue t') \<Longrightarrow> I (j + 1) t'"
  shows "I (max i stop) s'"
  using assms
proof (induction body i stop s rule: for_range.induct)
  case (1 body i stop s)
  show ?case
  proof (cases "i < stop")
    case False
    with "1.prems"(1) have "s' = s" by (simp add: for_range_unfold_ge)
    with False "1.prems"(2) show ?thesis by (simp add: max_def)
  next
    case True
    from "1.prems"(1) have u: "(case body i s of
        Inl e \<Rightarrow> Inl e
      | Inr (Return r) \<Rightarrow> Inr (Return r)
      | Inr (Continue s') \<Rightarrow> for_range body (i + 1) stop s') = Inr (Continue s')"
      by (simp only: for_range_unfold_lt[OF True])
    then obtain t where b: "body i s = Inr (Continue t)"
      and r: "for_range body (i + 1) stop t = Inr (Continue s')"
      by (cases "body i s"; simp split: flow.splits)
    have "I (i + 1) t" using "1.prems"(3)[OF _ True "1.prems"(2) b] by simp
    moreover have "\<And>j u u'. i + 1 \<le> j \<Longrightarrow> j < stop \<Longrightarrow> I j u \<Longrightarrow> body j u = Inr (Continue u')
        \<Longrightarrow> I (j + 1) u'"
      using "1.prems"(3) by simp
    ultimately have "I (max (i + 1) stop) s'"
      using "1.IH"[OF True b refl r] by blast
    with True show ?thesis by (simp add: max_def)
  qed
qed

lemma for_range_Return:
  assumes "for_range body i stop s = Inr (Return r)"
    and "I i s"
    and "\<And>j t t'. i \<le> j \<Longrightarrow> j < stop \<Longrightarrow> I j t \<Longrightarrow> body j t = Inr (Continue t') \<Longrightarrow> I (j + 1) t'"
  shows "\<exists>j t. i \<le> j \<and> j < stop \<and> I j t \<and> body j t = Inr (Return r)"
  using assms
proof (induction body i stop s rule: for_range.induct)
  case (1 body i stop s)
  have lt: "i < stop"
  proof (rule ccontr)
    assume "\<not> i < stop"
    with "1.prems"(1) show False by (simp add: for_range_unfold_ge)
  qed
  show ?case
  proof (cases "body i s")
    case (Inl e)
    with lt "1.prems"(1) show ?thesis by (simp add: for_range_unfold_lt)
  next
    case (Inr fl)
    show ?thesis
    proof (cases fl)
      case (Return r')
      with Inr lt "1.prems"(1) have "r' = r" by (simp add: for_range_unfold_lt)
      with Return Inr lt "1.prems"(2) show ?thesis by blast
    next
      case (Continue t)
      with Inr lt "1.prems"(1) have r: "for_range body (i + 1) stop t = Inr (Return r)"
        by (simp add: for_range_unfold_lt)
      have b: "body i s = Inr (Continue t)" using Inr Continue by simp
      have "I (i + 1) t" using "1.prems"(3)[OF _ lt "1.prems"(2) b] by simp
      moreover have "\<And>j u u'. i + 1 \<le> j \<Longrightarrow> j < stop \<Longrightarrow> I j u \<Longrightarrow> body j u = Inr (Continue u')
          \<Longrightarrow> I (j + 1) u'"
        using "1.prems"(3) by simp
      ultimately obtain j u where "i + 1 \<le> j" "j < stop" "I j u" "body j u = Inr (Return r)"
        using "1.IH"[OF lt b refl r] by blast
      then show ?thesis by (intro exI[of _ j] exI[of _ u]) simp
    qed
  qed
qed

lemma for_range_Inl:
  assumes "for_range body i stop s = Inl e"
    and "I i s"
    and "\<And>j t t'. i \<le> j \<Longrightarrow> j < stop \<Longrightarrow> I j t \<Longrightarrow> body j t = Inr (Continue t') \<Longrightarrow> I (j + 1) t'"
  shows "\<exists>j t. i \<le> j \<and> j < stop \<and> I j t \<and> body j t = Inl e"
  using assms
proof (induction body i stop s rule: for_range.induct)
  case (1 body i stop s)
  have lt: "i < stop"
  proof (rule ccontr)
    assume "\<not> i < stop"
    with "1.prems"(1) show False by (simp add: for_range_unfold_ge)
  qed
  show ?case
  proof (cases "body i s")
    case (Inl e')
    with lt "1.prems"(1) have "e' = e" by (simp add: for_range_unfold_lt)
    with Inl lt "1.prems"(2) show ?thesis by blast
  next
    case (Inr fl)
    show ?thesis
    proof (cases fl)
      case (Return r')
      with Inr lt "1.prems"(1) show ?thesis by (simp add: for_range_unfold_lt)
    next
      case (Continue t)
      with Inr lt "1.prems"(1) have r: "for_range body (i + 1) stop t = Inl e"
        by (simp add: for_range_unfold_lt)
      have b: "body i s = Inr (Continue t)" using Inr Continue by simp
      have "I (i + 1) t" using "1.prems"(3)[OF _ lt "1.prems"(2) b] by simp
      moreover have "\<And>j u u'. i + 1 \<le> j \<Longrightarrow> j < stop \<Longrightarrow> I j u \<Longrightarrow> body j u = Inr (Continue u')
          \<Longrightarrow> I (j + 1) u'"
        using "1.prems"(3) by simp
      ultimately obtain j u where "i + 1 \<le> j" "j < stop" "I j u" "body j u = Inl e"
        using "1.IH"[OF lt b refl r] by blast
      then show ?thesis by (intro exI[of _ j] exI[of _ u]) simp
    qed
  qed
qed

lemma loop_error:
  assumes "for_range body i stop s = Inl e"
  shows "\<exists>j t. body j t = Inl e"
  using for_range_Inl[where I = "\<lambda>j t. True", OF assms] by blast

subsection \<open>Traces\<close>

lemma traced_init: "traced conv P 1 xo None []"
  by (simp add: traced_def)

lemma traced_snoc:
  assumes "traced conv P j xo eo rows" and "\<not> conv (j, x, fx, e)" and "P (j, x, fx, e)"
  shows "traced conv P (j + 1) (Some x) (Some e) (rows @ [(j, x, fx, e)])"
proof -
  from assms(1) have j: "1 \<le> j" and m: "map row_iter rows = [1..j - 1]"
    and n: "\<forall>r\<in>set rows. \<not> conv r \<and> P r"
    by (simp_all add: traced_def)
  have "[1..j] = [1..j - 1] @ [j]" using j by (rule upto_rec2)
  with m have "map row_iter (rows @ [(j, x, fx, e)]) = [1..j + 1 - 1]"
    by (simp add: row_iter_def)
  with j n assms(2,3) show ?thesis
    by (simp add: traced_def row_x_def row_err_def)
qed

lemma returned_at_snoc:
  "conv (j, x, fx, e) \<Longrightarrow> P (j, x, fx, e) \<Longrightarrow> returned_at conv P j rows (x, e, j, rows @ [(j, x, fx, e)])"
  by (simp add: row_iter_def row_x_def row_err_def)

lemma returned_run_ok:
  assumes "traced conv P j xo eo rows0" and "returned_at conv P j rows0 r" and "j \<le> max_iter"
  shows "run_ok conv P max_iter r"
proof -
  obtain x e n rows where r: "r = (x, e, n, rows)" by (cases r) auto
  from assms(2) r obtain w where w: "rows = rows0 @ [w]" "row_iter w = j" "conv w" "P w"
    "x = row_x w" "e = row_err w" and n: "n = j" by auto
  from assms(1) have j: "1 \<le> j" and m: "map row_iter rows0 = [1..j - 1]"
    and nc: "\<forall>r\<in>set rows0. \<not> conv r \<and> P r"
    by (simp_all add: traced_def)
  have "[1..j] = [1..j - 1] @ [j]" using j by (rule upto_rec2)
  with m w have "map row_iter rows = [1..n]" by (simp add: n)
  with j n w nc assms(3) show ?thesis by (simp add: r)
qed

lemma exhausted_run_ok:
  assumes "traced conv P (max_iter + 1) xo eo rows" and "1 \<le> max_iter"
  shows "\<exists>x e. xo = Some x \<and> eo = Some e \<and> run_ok conv P max_iter (x, e, max_iter, rows)
     \<and> (\<forall>r\<in>set rows. \<not> conv r)"
proof -
  from assms(1) have m: "map row_iter rows = [1..max_iter]"
    and nc: "\<forall>r\<in>set rows. \<not> conv r \<and> P r"
    and l: "rows \<noteq> [] \<longrightarrow> xo = Some (row_x (last rows)) \<and> eo = Some (row_err (last rows))"
    by (simp_all add: traced_def)
  from assms(2) have "[1..max_iter] \<noteq> []" by simp
  with m have ne: "rows \<noteq> []" by auto
  have "\<forall>r\<in>set (butlast rows). \<not> conv r" using nc by (meson in_set_butlastD)
  with m nc l ne assms(2) show ?thesis by simp
qed

lemma loop_returns:
  assumes r: "for_range body 1 (max_iter + 1) s0 = Inr (Return r)"
    and init: "traced conv P 1 (vx s0) (ve s0) (vr s0)"
    and cont: "\<And>j s s'. traced conv P j (vx s) (ve s) (vr s) \<Longrightarrow> body j s = Inr (Continue s')
        \<Longrightarrow> traced conv P (j + 1) (vx s') (ve s') (vr s')"
    and ret: "\<And>j s r. traced conv P j (vx s) (ve s) (vr s) \<Longrightarrow> body j s = Inr (Return r)
        \<Longrightarrow> returned_at conv P j (vr s) r"
  shows "run_ok conv P max_iter r"
proof -
  from for_range_Return[where I = "\<lambda>j s. traced conv P j (vx s) (ve s) (vr s)", OF r init]
  obtain j t where j: "j < max_iter + 1" and tr: "traced conv P j (vx t) (ve t) (vr t)"
    and b: "body j t = Inr (Return r)"
    using cont by blast
  from ret[OF tr b] tr j show ?thesis by (intro returned_run_ok[where j = j]) auto
qed

lemma loop_exhausted:
  assumes r: "for_range body 1 (max_iter + 1) s0 = Inr (Continue s)"
    and init: "traced conv P 1 (vx s0) (ve s0) (vr s0)"
    and cont: "\<And>j s s'. traced conv P j (vx s) (ve s) (vr s) \<Longrightarrow> body j s = Inr (Continue s')
        \<Longrightarrow> traced conv P (j + 1) (vx s') (ve s') (vr s')"
    and m: "1 \<le> max_iter"
  shows "\<exists>x e. vx s = Some x \<and> ve s = Some e \<and> run_ok conv P max_iter (x, e, max_iter, vr s)
     \<and> (\<forall>r\<in>set (vr s). \<not> conv r)"
proof -
  from for_range_Continue[where I = "\<lambda>j s. traced conv P j (vx s) (ve s) (vr s)", OF r init]
  have "traced conv P (max 1 (max_iter + 1)) (vx s) (ve s) (vr s)"
    using cont by blast
  with m have "traced conv P (max_iter + 1) (vx s) (ve s) (vr s)" by (simp add: max_def)
  from exhausted_run_ok[OF this m] show ?thesis .
qed

lemma loop_skipped:
  "max_iter \<le> 0 \<Longrightarrow> for_range body 1 (max_iter + 1) s0 = Inr (Continue s0)"
  by (simp add: for_range_unfold_ge)

lemma loop_outcome:
  assumes out: "for_range body 1 (m + 1) s0 = out"
    and init: "vr s0 = []" "ve s0 = None"
    and cont: "\<And>j s s'. traced conv P j (vx s) (ve s) (vr s) \<Longrightarrow> body j s = Inr (Continue s')
        \<Longrightarrow> traced conv P (j + 1) (vx s') (ve s') (vr s')"
    and ret: "\<And>j s r. traced conv P j (vx s) (ve s) (vr s) \<Longrightarrow> body j s = Inr (Return r)
        \<Longrightarrow> returned_at conv P j (vr s) r"
  shows "case out of
      Inl e \<Rightarrow> True
    | Inr (Return r) \<Rightarrow> run_ok conv P m r
    | Inr (Continue s) \<Rightarrow>
        (if 1 \<le> m
         then \<exists>x e. vx s = Some x \<and> ve s = Some e \<and> run_ok conv P m (x, e, m, vr s) \<and>
                (\<forall>r\<in>set (vr s). \<not> conv r)
         else s = s0)"
proof -
  have tr: "traced conv P 1 (vx s0) (ve s0) (vr s0)"
    using init by (simp add: traced_init)
  show ?thesis
  proof (cases out)
    case (Inl e)
    then show ?thesis by simp
  next
    case (Inr fl)
    show ?thesis
    proof (cases fl)
      case (Return r)
      with Inr out have "for_range body 1 (m + 1) s0 = Inr (Return r)" by simp
      from loop_returns[where vx = vx and ve = ve and vr = vr, OF this tr cont ret]
      show ?thesis using Inr Return by simp
    next
      case (Continue s)
      with Inr out have c: "for_range body 1 (m + 1) s0 = Inr (Continue s)" by simp
      show ?thesis
      proof (cases "1 \<le> m")
        case True
        from loop_exhausted[where vx = vx and ve = ve and vr = vr, OF c tr cont True]
        show ?thesis using Inr Continue True by simp
      next
        case False
        then have "for_range body 1 (m + 1) s0 = Inr (Continue s0)"
          by (simp add: loop_skipped)
        with c False Inr Continue show ?thesis by simp
      qed
    qed
  qed
qed

subsection \<open>One pass of each method\<close>

lemmas body_unfold = and_then_def call_def py_div_def Let_def numerical_derivative_def

lemma conv_row [simp]:
  "residual_or_error tol (j, x, Some v, Fin e) \<longleftrightarrow> \<bar>v\<bar> < tol \<or> e < tol"
  "residual_or_error tol (j, x, Some v, PInf) \<longleftrightarrow> \<bar>v\<bar> < tol"
  "error_only tol (j, x, fx, Fin e) \<longleftrightarrow> e < tol"
  by (simp_all add: residual_or_error_def error_only_def row_fx_def row_err_def)

lemma recorded_row [simp]:
  "recorded f (j, x, Some v, e) \<longleftrightarrow> f x = Inr v"
  "unrecorded (j, x, None, e)"
  by (simp_all add: recorded_def unrecorded_def row_fx_def row_x_def)

lemma bisection_cont:
  assumes "traced (residual_or_error tol) (recorded f) j c0 e0 rows"
    and "bisection_body f tol j (a, b, fa, fb, c0, e0, rows) = Inr (Continue (a', b', fa', fb', c', e', rows'))"
  shows "traced (residual_or_error tol) (recorded f) (j + 1) c' e' rows'"
  using assms(2) traced_snoc[OF assms(1)]
  by (auto simp: body_unfold split: sum.splits if_splits)

lemma bisection_ret:
  assumes "bisection_body f tol j (a, b, fa, fb, c0, e0, rows) = Inr (Return r)"
  shows "returned_at (residual_or_error tol) (recorded f) j rows r"
  using assms
  by (auto simp: body_unfold split: sum.splits if_splits intro!: returned_at_snoc)

lemma regula_falsi_cont:
  assumes "traced (residual_or_error tol) (recorded f) j (Some c0) e0 rows"
    and "regula_falsi_body f tol j (a, b, fa, fb, c0, e0, rows) = Inr (Continue (a', b', fa', fb', c', e', rows'))"
  shows "traced (residual_or_error tol) (recorded f) (j + 1) (Some c') e' rows'"
  using assms(2) traced_snoc[OF assms(1)]
  by (auto simp: body_unfold split: sum.splits if_splits)

lemma regula_falsi_ret:
  assumes "regula_falsi_body f tol j (a, b, fa, fb, c0, e0, rows) = Inr (Return r)"
  shows "returned_at (residual_or_error tol) (recorded f) j rows r"
  using assms
  by (auto simp: body_unfold split: sum.splits if_splits intro!: returned_at_snoc)

lemma secant_cont:
  assumes "traced (residual_or_error tol) (recorded f) j x2o e0 rows"
    and "secant_body f tol j (x0, x1, x2o, e0, rows) = Inr (Continue (x0', x1', x2', e', rows'))"
  shows "traced (residual_or_error tol) (recorded f) (j + 1) x2' e' rows'"
  using assms(2) traced_snoc[OF assms(1)]
  by (auto simp: body_unfold split: sum.splits if_splits)

lemma secant_ret:
  assumes "secant_body f tol j (x0, x1, x2o, e0, rows) = Inr (Return r)"
  shows "returned_at (residual_or_error tol) (recorded f) j rows r"
  using assms
  by (auto simp: body_unfold split: sum.splits if_splits intro!: returned_at_snoc)

lemma newton_raphson_cont:
  assumes "traced (residual_or_error tol) (recorded f) j (Some x) e0 rows"
    and "newton_raphson_body f tol j (x, e0, rows) = Inr (Continue (x', e', rows'))"
  shows "traced (residual_or_error tol) (recorded f) (j + 1) (Some x') e' rows'"
  using assms(2) traced_snoc[OF assms(1)]
  by (auto simp: body_unfold split: sum.splits if_splits)

lemma newton_raphson_ret:
  assumes "newton_raphson_body f tol j (x, e0, rows) = Inr (Return r)"
  shows "returned_at (residual_or_error tol) (recorded f) j rows r"
  using assms
  by (auto simp: body_unfold split: sum.splits if_splits intro!: returned_at_snoc)

lemma fixed_point_iteration_cont:
  assumes "traced (error_only tol) unrecorded j (Some x) e0 rows"
    and "fixed_point_iteration_body g tol j (x, e0, rows) = Inr (Continue (x', e', rows'))"
  shows "traced (error_only tol) unrecorded (j + 1) (Some x') e' rows'"
  using assms(2) traced_snoc[OF assms(1)]
  by (auto simp: body_unfold split: sum.splits if_splits)

lemma fixed_point_iteration_ret:
  assumes "fixed_point_iteration_body g tol j (x, e0, rows) = Inr (Return r)"
  shows "returned_at (error_only tol) unrecorded j rows r"
  using assms
  by (auto simp: body_unfold split: sum.splits if_splits intro!: returned_at_snoc)

lemma modified_secant_cont:
  assumes "traced (residual_or_error tol) (recorded f) j (Some x) e0 rows"
    and "modified_secant_body f delta tol j (x, e0, rows) = Inr (Continue (x', e', rows'))"
  shows "traced (residual_or_error tol) (recorded f) (j + 1) (Some x') e' rows'"
  using assms(2) traced_snoc[OF assms(1)]
  by (auto simp: body_unfold split: sum.splits if_splits)

lemma modified_secant_ret:
  assumes "modified_secant_body f delta tol j (x, e0, rows) = Inr (Return r)"
  shows "returned_at (residual_or_error tol) (recorded f) j rows r"
  using assms
  by (auto simp: body_unfold split: sum.splits if_splits intro!: returned_at_snoc)

subsection \<open>A call of each method\<close>

lemma bisection_loop:
  fixes f :: "real \<Rightarrow> 'e + real"
  assumes "for_range (bisection_body f tol) 1 (m + 1) (a, b, fa, fb, None, None, []) = out"
  shows "case out of
      Inl e \<Rightarrow> True
    | Inr (Return r) \<Rightarrow> run_ok (residual_or_error tol) (recorded f) m r
    | Inr (Continue (a', b', fa', fb', c, e, rows)) \<Rightarrow>
        (if 1 \<le> m
         then \<exists>x err. c = Some x \<and> e = Some err \<and>
                run_ok (residual_or_error tol) (recorded f) m (x, err, m, rows) \<and>
                (\<forall>r\<in>set rows. \<not> residual_or_error tol r)
         else c = None \<and> e = None \<and> rows = [])"
proof -
  define vx where "vx = (\<lambda>(a :: real, b :: real, fa :: real, fb :: real, c :: real option,
    e :: efloat option, rows :: row list). c)"
  define ve where "ve = (\<lambda>(a :: real, b :: real, fa :: real, fb :: real, c :: real option,
    e :: efloat option, rows :: row list). e)"
  define vr where "vr = (\<lambda>(a :: real, b :: real, fa :: real, fb :: real, c :: real option,
    e :: efloat option, rows :: row list). rows)"
  have "case out of
      Inl e \<Rightarrow> True
    | Inr (Return r) \<Rightarrow> run_ok (residual_or_error tol) (recorded f) m r
    | Inr (Continue s) \<Rightarrow>
        (if 1 \<le> m
         then \<exists>x e. vx s = Some x \<and> ve s = Some e \<and>
                run_ok (residual_or_error tol) (recorded f) m (x, e, m, vr s) \<and>
                (\<forall>r\<in>set (vr s). \<not> residual_or_error tol r)
         else s = (a, b, fa, fb, None, None, []))"
  proof (rule loop_outcome[OF assms])
    show "vr (a, b, fa, fb, None, None, []) = []" "ve (a, b, fa, fb, None, None, []) = None"
      by (simp_all add: vr_def ve_def)
  next
    fix j s s'
    assume "traced (residual_or_error tol) (recorded f) j (vx s) (ve s) (vr s)"
      "bisection_body f tol j s = Inr (Continue s')"
    then show "traced (residual_or_error tol) (recorded f) (j + 1) (vx s') (ve s') (vr s')"
      by (cases s; cases s') (auto simp: vx_def ve_def vr_def intro: bisection_cont)
  next
    fix j s r
    assume "bisection_body f tol j s = Inr (Return r)"
    then show "returned_at (residual_or_error tol) (recorded f) j (vr s) r"
      by (cases s) (auto simp: vr_def intro: bisection_ret)
  qed
  then show ?thesis
    by (auto simp: vx_def ve_def vr_def split: sum.splits flow.splits if_splits)
qed

lemma bisection_pre:
  assumes "bisection f a b tol m = Inr r"
  obtains fa fb where "f a = Inr fa" "f b = Inr fb" "\<not> 0 < fa * fb"
  using assms
  by (auto simp: bisection_def and_then_def call_def split: sum.splits if_splits)

lemma bisection_unfold:
  assumes "f a = Inr fa" "f b = Inr fb" "\<not> 0 < fa * fb"
  shows "bisection f a b tol m =
       (case for_range (bisection_body f tol) 1 (m + 1) (a, b, fa, fb, None, None, []) of
          Inl e \<Rightarrow> Inl e
        | Inr (Return r) \<Rightarrow> Inr r
        | Inr (Continue (a, b, fa, fb, c, err, rows)) \<Rightarrow>
            (case c of
               None \<Rightarrow> Inl (UnboundLocalError ''c'')
             | Some c \<Rightarrow>
                 (case err of
                    None \<Rightarrow> Inl (UnboundLocalError ''err'')
                  | Some err \<Rightarrow> Inr (c, err, m, rows))))"
  using assms by (simp add: bisection_def and_then_def call_def)

lemma bisection_run_ok:
  assumes "bisection f a b tol m = Inr r"
  shows "run_ok (residual_or_error tol) (recorded f) m r"
proof -
  from assms obtain fa fb where p: "f a = Inr fa" "f b = Inr fb" "\<not> 0 < fa * fb"
    by (rule bisection_pre)
  show ?thesis
    using bisection_loop[OF refl, where f = f and tol = tol and m = m and a = a and b = b
        and fa = fa and fb = fb] assms
    unfolding bisection_unfold[OF p]
    by (auto split: sum.splits flow.splits option.splits if_splits)
qed

lemma bisection_body_error:
  "bisection_body f tol j s = Inl e \<Longrightarrow> \<exists>e'. e = Raised e'"
  by (cases s) (auto simp: body_unfold split: sum.splits if_splits)

lemma bisection_error:
  assumes "bisection f a b tol m = Inl e"
  shows "(\<exists>e'. e = Raised e') \<or>
     (e = InvalidBracket \<and> (\<exists>fa fb. f a = Inr fa \<and> f b = Inr fb \<and> 0 < fa * fb)) \<or>
     (m \<le> 0 \<and> e = UnboundLocalError ''c'')"
proof (cases "\<exists>fa fb. f a = Inr fa \<and> f b = Inr fb \<and> \<not> 0 < fa * fb")
  case False
  with assms show ?thesis
    by (auto simp: bisection_def and_then_def call_def split: sum.splits if_splits)
next
  case True
  then obtain fa fb where p: "f a = Inr fa" "f b = Inr fb" "\<not> 0 < fa * fb" by blast
  show ?thesis
  proof (cases "for_range (bisection_body f tol) 1 (m + 1) (a, b, fa, fb, None, None, [])")
    case (Inl e')
    with assms have "e' = e" by (simp add: bisection_unfold[OF p])
    with Inl loop_error[of "bisection_body f tol" 1 "m + 1" _ e] bisection_body_error[of f tol _ _ e]
    show ?thesis by blast
  next
    case (Inr fl)
    with bisection_loop[OF refl, where f = f and tol = tol and m = m and a = a and b = b
        and fa = fa and fb = fb] assms
    show ?thesis
      unfolding bisection_unfold[OF p]
      by (auto split: sum.splits flow.splits option.splits if_splits)
  qed
qed

lemma regula_falsi_loop:
  fixes f :: "real \<Rightarrow> 'e + real"
  assumes "for_range (regula_falsi_body f tol) 1 (m + 1) (a, b, fa, fb, a, None, []) = out"
  shows "case out of
      Inl e \<Rightarrow> True
    | Inr (Return r) \<Rightarrow> run_ok (residual_or_error tol) (recorded f) m r
    | Inr (Continue (a', b', fa', fb', c, e, rows)) \<Rightarrow>
        (if 1 \<le> m
         then \<exists>err. e = Some err \<and>
                run_ok (residual_or_error tol) (recorded f) m (c, err, m, rows) \<and>
                (\<forall>r\<in>set rows. \<not> residual_or_error tol r)
         else e = None \<and> rows = [])"
proof -
  define vx where "vx = (\<lambda>(a :: real, b :: real, fa :: real, fb :: real, c :: real,
    e :: efloat option, rows :: row list). Some c)"
  define ve where "ve = (\<lambda>(a :: real, b :: real, fa :: real, fb :: real, c :: real,
    e :: efloat option, rows :: row list). e)"
  define vr where "vr = (\<lambda>(a :: real, b :: real, fa :: real, fb :: real, c :: real,
    e :: efloat option, rows :: row list). rows)"
  have "case out of
      Inl e \<Rightarrow> True
    | Inr (Return r) \<Rightarrow> run_ok (residual_or_error tol) (recorded f) m r
    | Inr (Continue s) \<Rightarrow>
        (if 1 \<le> m
         then \<exists>x e. vx s = Some x \<and> ve s = Some e \<and>
                run_ok (residual_or_error tol) (recorded f) m (x, e, m, vr s) \<and>
                (\<forall>r\<in>set (vr s). \<not> residual_or_error tol r)
         else s = (a, b, fa, fb, a, None, []))"
  proof (rule loop_outcome[OF assms])
    show "vr (a, b, fa, fb, a, None, []) = []" "ve (a, b, fa, fb, a, None, []) = None"
      by (simp_all add: vr_def ve_def)
  next
    fix j s s'
    assume "traced (residual_or_error tol) (recorded f) j (vx s) (ve s) (vr s)"
      "regula_falsi_body f tol j s = Inr (Continue s')"
    then show "traced (residual_or_error tol) (recorded f) (j + 1) (vx s') (ve s') (vr s')"
      by (cases s; cases s') (auto simp: vx_def ve_def vr_def intro: regula_falsi_cont)
  next
    fix j s r
    assume "regula_falsi_body f tol j s = Inr (Return r)"
    then show "returned_at (residual_or_error tol) (recorded f) j (vr s) r"
      by (cases s) (auto simp: vr_def intro: regula_falsi_ret)
  qed
  then show ?thesis
    by (auto simp: vx_def ve_def vr_def split: sum.splits flow.splits if_splits)
qed

lemma regula_falsi_pre:
  assumes "regula_falsi f a b tol m = Inr r"
  obtains fa fb where "f a = Inr fa" "f b = Inr fb" "\<not> 0 < fa * fb"
  using assms
  by (auto simp: regula_falsi_def and_then_def call_def split: sum.splits if_splits)

lemma regula_falsi_unfold:
  assumes "f a = Inr fa" "f b = Inr fb" "\<not> 0 < fa * fb"
  shows "regula_falsi f a b tol m =
       (case for_range (regula_falsi_body f tol) 1 (m + 1) (a, b, fa, fb, a, None, []) of
          Inl e \<Rightarrow> Inl e
        | Inr (Return r) \<Rightarrow> Inr r
        | Inr (Continue (a, b, fa, fb, c, err, rows)) \<Rightarrow>
            (case err of
               None \<Rightarrow> Inl (UnboundLocalError ''err'')
             | Some err \<Rightarrow> Inr (c, err, m, rows)))"
  using assms by (simp add: regula_falsi_def and_then_def call_def)

lemma regula_falsi_run_ok:
  assumes "regula_falsi f a b tol m = Inr r"
  shows "run_ok (residual_or_error tol) (recorded f) m r"
proof -
  from assms obtain fa fb where p: "f a = Inr fa" "f b = Inr fb" "\<not> 0 < fa * fb"
    by (rule regula_falsi_pre)
  show ?thesis
    using regula_falsi_loop[OF refl, where f = f and tol = tol and m = m and a = a and b = b
        and fa = fa and fb = fb] assms
    unfolding regula_falsi_unfold[OF p]
    by (auto split: sum.splits flow.splits option.splits if_splits)
qed



lemma secant_loop:
  fixes f :: "real \<Rightarrow> 'e + real"
  assumes "for_range (secant_body f tol) 1 (m + 1) (x0, x1, None, None, []) = out"
  shows "case out of
      Inl e \<Rightarrow> True
    | Inr (Return r) \<Rightarrow> run_ok (residual_or_error tol) (recorded f) m r
    | Inr (Continue (x0', x1', x2, e, rows)) \<Rightarrow>
        (if 1 \<le> m
         then \<exists>x err. x2 = Some x \<and> e = Some err \<and>
                run_ok (residual_or_error tol) (recorded f) m (x, err, m, rows) \<and>
                (\<forall>r\<in>set rows. \<not> residual_or_error tol r)
         else x2 = None \<and> e = None \<and> rows = [])"
proof -
  define vx where "vx = (\<lambda>(x0 :: real, x1 :: real, x2 :: real option,
    e :: efloat option, rows :: row list). x2)"
  define ve where "ve = (\<lambda>(x0 :: real, x1 :: real, x2 :: real option,
    e :: efloat option, rows :: row list). e)"
  define vr where "vr = (\<lambda>(x0 :: real, x1 :: real, x2 :: real option,
    e :: efloat option, rows :: row list). rows)"
  have "case out of
      Inl e \<Rightarrow> True
    | Inr (Return r) \<Rightarrow> run_ok (residual_or_error tol) (recorded f) m r
    | Inr (Continue s) \<Rightarrow>
        (if 1 \<le> m
         then \<exists>x e. vx s = Some x \<and> ve s = Some e \<and>
                run_ok (residual_or_error tol) (recorded f) m (x, e, m, vr s) \<and>
                (\<forall>r\<in>set (vr s). \<not> residual_or_error tol r)
         else s = (x0, x1, None, None, []))"
  proof (rule loop_outcome[OF assms])
    show "vr (x0, x1, None, None, []) = []" "ve (x0, x1, None, None, []) = None"
      by (simp_all add: vr_def ve_def)
  next
    fix j s s'
    assume "traced (residual_or_error tol) (recorded f) j (vx s) (ve s) (vr s)"
      "secant_body f tol j s = Inr (Continue s')"
    then show "traced (residual_or_error tol) (recorded f) (j + 1) (vx s') (ve s') (vr s')"
      by (cases s; cases s') (auto simp: vx_def ve_def vr_def intro: secant_cont)
  next
    fix j s r
    assume "secant_body f tol j s = Inr (Return r)"
    then show "returned_at (residual_or_error tol) (recorded f) j (vr s) r"
      by (cases s) (auto simp: vr_def intro: secant_ret)
  qed
  then show ?thesis
    by (auto simp: vx_def ve_def vr_def split: sum.splits flow.splits if_splits)
qed

lemma secant_run_ok:
  assumes "secant f x0 x1 tol m = Inr r"
  shows "run_ok (residual_or_error tol) (recorded f) m r"
  using secant_loop[OF refl, where f = f and tol = tol and m = m and ?x0.0 = x0 and ?x1.0 = x1]
    assms
  unfolding secant_def
  by (auto split: sum.splits flow.splits option.splits if_splits)



lemma newton_raphson_loop:
  fixes f :: "real \<Rightarrow> 'e + real"
  assumes "for_range (newton_raphson_body f tol) 1 (m + 1) (x0, None, []) = out"
  shows "case out of
      Inl e \<Rightarrow> True
    | Inr (Return r) \<Rightarrow> run_ok (residual_or_error tol) (recorded f) m r
    | Inr (Continue (x, e, rows)) \<Rightarrow>
        (if 1 \<le> m
         then \<exists>err. e = Some err \<and>
                run_ok (residual_or_error tol) (recorded f) m (x, err, m, rows) \<and>
                (\<forall>r\<in>set rows. \<not> residual_or_error tol r)
         else e = None \<and> rows = [])"
proof -
  define vx where "vx = (\<lambda>(x :: real, e :: efloat option, rows :: row list). Some x)"
  define ve where "ve = (\<lambda>(x :: real, e :: efloat option, rows :: row list). e)"
  define vr where "vr = (\<lambda>(x :: real, e :: efloat option, rows :: row list). rows)"
  have "case out of
      Inl e \<Rightarrow> True
    | Inr (Return r) \<Rightarrow> run_ok (residual_or_error tol) (recorded f) m r
    | Inr (Continue s) \<Rightarrow>
        (if 1 \<le> m
         then \<exists>x e. vx s = Some x \<and> ve s = Some e \<and>
                run_ok (residual_or_error tol) (recorded f) m (x, e, m, vr s) \<and>
                (\<forall>r\<in>set (vr s). \<not> residual_or_error tol r)
         else s = (x0, None, []))"
  proof (rule loop_outcome[OF assms])
    show "vr (x0, None, []) = []" "ve (x0, None, []) = None"
      by (simp_all add: vr_def ve_def)
  next
    fix j s s'
    assume "traced (residual_or_error tol) (recorded f) j (vx s) (ve s) (vr s)"
      "newton_raphson_body f tol j s = Inr (Continue s')"
    then show "traced (residual_or_error tol) (recorded f) (j + 1) (vx s') (ve s') (vr s')"
      by (cases s; cases s') (auto simp: vx_def ve_def vr_def intro: newton_raphson_cont)
  next
    fix j s r
    assume "newton_raphson_body f tol j s = Inr (Return r)"
    then show "returned_at (residual_or_error tol) (recorded f) j (vr s) r"
      by (cases s) (auto simp: vr_def intro: newton_raphson_ret)
  qed
  then show ?thesis
    by (auto simp: vx_def ve_def vr_def split: sum.splits flow.splits if_splits)
qed

lemma newton_raphson_run_ok:
  assumes "newton_raphson f x0 tol m = Inr r"
  shows "run_ok (residual_or_error tol) (recorded f) m r"
  using newton_raphson_loop[OF refl, where f = f and tol = tol and m = m and ?x0.0 = x0]
    assms
  unfolding newton_raphson_def
  by (auto split: sum.splits flow.splits option.splits if_splits)



lemma fixed_point_iteration_loop:
  fixes g :: "real \<Rightarrow> 'e + real"
  assumes "for_range (fixed_point_iteration_body g tol) 1 (m + 1) (x0, None, []) = out"
  shows "case out of
      Inl e \<Rightarrow> True
    | Inr (Return r) \<Rightarrow> run_ok (error_only tol) unrecorded m r
    | Inr (Continue (x, e, rows)) \<Rightarrow>
        (if 1 \<le> m
         then \<exists>err. e = Some err \<and>
                run_ok (error_only tol) unrecorded m (x, err, m, rows) \<and>
                (\<forall>r\<in>set rows. \<not> error_only tol r)
         else e = None \<and> rows = [])"
proof -
  define vx where "vx = (\<lambda>(x :: real, e :: efloat option, rows :: row list). Some x)"
  define ve where "ve = (\<lambda>(x :: real, e :: efloat option, rows :: row list). e)"
  define vr where "vr = (\<lambda>(x :: real, e :: efloat option, rows :: row list). rows)"
  have "case out of
      Inl e \<Rightarrow> True
    | Inr (Return r) \<Rightarrow> run_ok (error_only tol) unrecorded m r
    | Inr (Continue s) \<Rightarrow>
        (if 1 \<le> m
         then \<exists>x e. vx s = Some x \<and> ve s = Some e \<and>
                run_ok (error_only tol) unrecorded m (x, e, m, vr s) \<and>
                (\<forall>r\<in>set (vr s). \<not> error_only tol r)
         else s = (x0, None, []))"
  proof (rule loop_outcome[OF assms])
    show "vr (x0, None, []) = []" "ve (x0, None, []) = None"
      by (simp_all add: vr_def ve_def)
  next
    fix j s s'
    assume "traced (error_only tol) unrecorded j (vx s) (ve s) (vr s)"
      "fixed_point_iteration_body g tol j s = Inr (Continue s')"
    then show "traced (error_only tol) unrecorded (j + 1) (vx s') (ve s') (vr s')"
      by (cases s; cases s') (auto simp: vx_def ve_def vr_def intro: fixed_point_iteration_cont)
  next
    fix j s r
    assume "fixed_point_iteration_body g tol j s = Inr (Return r)"
    then show "returned_at (error_only tol) unrecorded j (vr s) r"
      by (cases s) (auto simp: vr_def intro: fixed_point_iteration_ret)
  qed
  then show ?thesis
    by (auto simp: vx_def ve_def vr_def split: sum.splits flow.splits if_splits)
qed

lemma fixed_point_iteration_run_ok:
  assumes "fixed_point_iteration g x0 tol m = Inr r"
  shows "run_ok (error_only tol) unrecorded m r"
  using fixed_point_iteration_loop[OF refl, where g = g and tol = tol and m = m and ?x0.0 = x0]
    assms
  unfolding fixed_point_iteration_def
  by (auto split: sum.splits flow.splits option.splits if_splits)



lemma modified_secant_loop:
  fixes f :: "real \<Rightarrow> 'e + real"
  assumes "for_range (modified_secant_body f delta tol) 1 (m + 1) (x0, None, []) = out"
  shows "case out of
      Inl e \<Rightarrow> True
    | Inr (Return r) \<Rightarrow> run_ok (residual_or_error tol) (recorded f) m r
    | Inr (Continue (x, e, rows)) \<Rightarrow>
        (if 1 \<le> m
         then \<exists>err. e = Some err \<and>
                run_ok (residual_or_error tol) (recorded f) m (x, err, m, rows) \<and>
                (\<forall>r\<in>set rows. \<not> residual_or_error tol r)
         else e = None \<and> rows = [])"
proof -
  define vx where "vx = (\<lambda>(x :: real, e :: efloat option, rows :: row list). Some x)"
  define ve where "ve = (\<lambda>(x :: real, e :: efloat option, rows :: row list). e)"
  define vr where "vr = (\<lambda>(x :: real, e :: efloat option, rows :: row list). rows)"
  have "case out of
      Inl e \<Rightarrow> True
    | Inr (Return r) \<Rightarrow> run_ok (residual_or_error tol) (recorded f) m r
    | Inr (Continue s) \<Rightarrow>
        (if 1 \<le> m
         then \<exists>x e. vx s = Some x \<and> ve s = Some e \<and>
                run_ok (residual_or_error tol) (recorded f) m (x, e, m, vr s) \<and>
                (\<forall>r\<in>set (vr s). \<not> residual_or_error tol r)
         else s = (x0, None, []))"
  proof (rule loop_outcome[OF assms])
    show "vr (x0, None, []) = []" "ve (x0, None, []) = None"
      by (simp_all add: vr_def ve_def)
  next
    fix j s s'
    assume "traced (residual_or_error tol) (recorded f) j (vx s) (ve s) (vr s)"
      "modified_secant_body f delta tol j s = Inr (Continue s')"
    then show "traced (residual_or_error tol) (recorded f) (j + 1) (vx s') (ve s') (vr s')"
      by (cases s; cases s') (auto simp: vx_def ve_def vr_def intro: modified_secant_cont)
  next
    fix j s r
    assume "modified_secant_body f delta tol j s = Inr (Return r)"
    then show "returned_at (residual_or_error tol) (recorded f) j (vr s) r"
      by (cases s) (auto simp: vr_def intro: modified_secant_ret)
  qed
  then show ?thesis
    by (auto simp: vx_def ve_def vr_def split: sum.splits flow.splits if_splits)
qed

lemma modified_secant_run_ok:
  assumes "modified_secant f x0 delta tol m = Inr r"
  shows "run_ok (residual_or_error tol) (recorded f) m r"
  using modified_secant_loop[OF refl, where f = f and tol = tol and m = m and ?x0.0 = x0 and delta = delta]
    assms
  unfolding modified_secant_def
  by (auto split: sum.splits flow.splits option.splits if_splits)

lemma modified_secant_body_error:
  "modified_secant_body f delta tol j s = Inl e \<Longrightarrow> (\<exists>e'. e = Raised e') \<or> e = ZeroDerivativeApproximation \<or> e = FloatDivisionByZero"
  by (cases s) (auto simp: body_unfold default_h_def split: sum.splits if_splits)

lemma modified_secant_error:
  assumes "modified_secant f x0 delta tol m = Inl e"
  shows "(\<exists>e'. e = Raised e') \<or> e = ZeroDerivativeApproximation \<or> e = FloatDivisionByZero \<or>
     (m \<le> 0 \<and> e = UnboundLocalError ''err'')"
proof (cases "for_range (modified_secant_body f delta tol) 1 (m + 1) (x0, None, [])")
  case (Inl e')
  with assms have "e' = e" by (simp add: modified_secant_def)
  with Inl loop_error[of "modified_secant_body f delta tol" 1 "m + 1" _ e]
    modified_secant_body_error[of f delta tol _ _ e]
  show ?thesis by blast
next
  case (Inr fl)
  with modified_secant_loop[OF refl, where f = f and tol = tol and m = m and ?x0.0 = x0 and delta = delta]
    assms
  show ?thesis
    unfolding modified_secant_def
    by (auto split: sum.splits flow.splits option.splits if_splits)
qed

subsection \<open>Reading a returned tuple\<close>


lemma length_of_iters:
  assumes "map row_iter rows = [1..n]" "1 \<le> n"
  shows "int (length rows) = n"
proof -
  have "length (map row_iter rows) = length [1..n]" using assms(1) by simp
  then show ?thesis using assms(2) by simp
qed





lemma run_ok_rows:
  assumes "run_ok conv P m r"
  shows "one_row_per_pass r"
proof -
  obtain x e n rows where r: "r = (x, e, n, rows)" by (cases r) auto
  from assms r show ?thesis by (simp add: length_of_iters)
qed


subsection \<open>Bisection halves its bracket\<close>






subsection \<open>Secant chains its updates\<close>







subsection \<open>Concrete runs\<close>


lemma run_bisection_sq2:
  "bisection f_sq2 0 2 (1 / 10) 100 =
     Inr (23 / 16, Fin (1 / 16), 5,
          [(1, 1, Some (- 1), Fin 1), (2, 3 / 2, Some (1 / 4), Fin (1 / 2)),
           (3, 5 / 4, Some (- (7 / 16)), Fin (1 / 4)),
           (4, 11 / 8, Some (- (7 / 64)), Fin (1 / 8)),
           (5, 23 / 16, Some (17 / 256), Fin (1 / 16))])"
  by code_simp

lemma run_regula_falsi_sq2:
  "regula_falsi f_sq2 0 2 (1 / 10) 100 =
     Inr (7 / 5, Fin (1 / 15), 3,
          [(1, 1, Some (- 1), PInf), (2, 4 / 3, Some (- (2 / 9)), Fin (1 / 3)),
           (3, 7 / 5, Some (- (1 / 25)), Fin (1 / 15))])"
  by code_simp

lemma run_secant_sq2:
  "secant f_sq2 0 2 (1 / 10) 100 =
     Inr (10 / 7, Fin (2 / 21), 3,
          [(1, 1, Some (- 1), Fin 1), (2, 4 / 3, Some (- (2 / 9)), Fin (1 / 3)),
           (3, 10 / 7, Some (2 / 49), Fin (2 / 21))])"
  by code_simp

lemma run_newton_raphson_sq2:
  "newton_raphson f_sq2 1 (1 / 10) 100 =
     Inr (17 / 12, Fin (1 / 12), 2,
          [(1, 3 / 2, Some (1 / 4), Fin (1 / 2)), (2, 17 / 12, Some (1 / 144), Fin (1 / 12))])"
  by code_simp

lemma run_modified_secant_sq2:
  "modified_secant f_sq2 1 1 (1 / 10) 100 =
     Inr (25 / 18, Fin (1 / 18), 2,
          [(1, 4 / 3, Some (- (2 / 9)), Fin (1 / 3)),
           (2, 25 / 18, Some (- (23 / 324)), Fin (1 / 18))])"
  by code_simp

lemma run_fixed_point_half:
  "fixed_point_iteration g_half 0 (1 / 10) 100 =
     Inr (31 / 16, Fin (1 / 16), 5,
          [(1, 1, None, Fin 1), (2, 3 / 2, None, Fin (1 / 2)), (3, 7 / 4, None, Fin (1 / 4)),
           (4, 15 / 8, None, Fin (1 / 8)), (5, 31 / 16, None, Fin (1 / 16))])"
  by code_simp







subsection \<open>Runs over a pure callable\<close>

lemma is_pure_callable:
  assumes "is_pure f"
  obtains h where "f = pure_callable h"
proof
  show "f = pure_callable (\<lambda>x. fst (f x undefined))"
  proof (intro ext)
    fix x w
    from assms have "fst (f x w) = fst (f x undefined)" "snd (f x w) = w"
      by (simp_all add: is_pure_def)
    then show "f x w = pure_callable (\<lambda>x. fst (f x undefined)) x w"
      by (simp add: pure_callable_def prod_eq_iff)
  qed
qed

lemma is_pure_pure_callable: "is_pure (pure_callable h)"
  by (simp add: is_pure_def pure_callable_def)

lemma io_call_pure: "io_call (pure_callable h) x = io_unit (call h x)"
  by (auto simp: io_call_def pure_callable_def io_unit_def call_def split: sum.splits)

lemma io_then_unit:
  "io_then (io_unit m) k = (case m of Inl e \<Rightarrow> io_unit (Inl e) | Inr v \<Rightarrow> k v)"
  by (auto simp: io_then_def io_unit_def split: sum.splits)

lemma io_map_unit: "io_map h (io_unit r) = io_unit (h r)"
  by (simp add: io_map_def io_unit_def)

lemma for_range_io_unfold_lt:
  "i < stop \<Longrightarrow> for_range_io body i stop s w =
     (case body i s w of
        (Inl e, w') \<Rightarrow> (Inl e, w')
      | (Inr (Return r), w') \<Rightarrow> (Inr (Return r), w')
      | (Inr (Continue s'), w') \<Rightarrow> for_range_io body (i + 1) stop s' w')"
  by (subst for_range_io.simps) simp

lemma for_range_io_unfold_ge:
  "\<not> i < stop \<Longrightarrow> for_range_io body i stop s w = (Inr (Continue s), w)"
  by (subst for_range_io.simps) simp

lemma for_range_io_pure:
  assumes "\<And>j t. body_io j t = io_unit (body j t)"
  shows "for_range_io body_io i stop s = io_unit (for_range body i stop s)"
  using assms
proof (induction body i stop s rule: for_range.induct)
  case (1 body i stop s)
  have b: "body_io i s w = (body i s, w)" for w
    by (simp add: "1.prems" io_unit_def)
  show ?case
  proof (cases "i < stop")
    case False
    then show ?thesis
      by (intro ext) (simp add: for_range_unfold_ge for_range_io_unfold_ge io_unit_def)
  next
    case True
    have u: "for_range_io body_io i stop s w =
       (case body i s of
          Inl e \<Rightarrow> (Inl e, w)
        | Inr (Return r) \<Rightarrow> (Inr (Return r), w)
        | Inr (Continue s') \<Rightarrow> for_range_io body_io (i + 1) stop s' w)" for w
      unfolding for_range_io_unfold_lt[OF True] b
      by (simp split: sum.splits flow.splits)
    show ?thesis
    proof (cases "body i s")
      case (Inl e)
      show ?thesis
        unfolding for_range_unfold_lt[OF True]
        by (intro ext) (simp add: u Inl io_unit_def)
    next
      case (Inr fl)
      show ?thesis
      proof (cases fl)
        case (Return r)
        show ?thesis
          unfolding for_range_unfold_lt[OF True]
          by (intro ext) (simp add: u Inr Return io_unit_def)
      next
        case (Continue t)
        from "1.IH"[OF True Inr Continue "1.prems"]
        have "for_range_io body_io (i + 1) stop t w = (for_range body (i + 1) stop t, w)" for w
          by (simp add: io_unit_def)
        then show ?thesis
          unfolding for_range_unfold_lt[OF True]
          by (intro ext) (simp add: u Inr Continue io_unit_def)
      qed
    qed
  qed
qed

lemmas io_pure = io_call_pure io_then_unit io_map_unit and_then_def Let_def

lemma numerical_derivative_io_pure:
  "numerical_derivative_io (pure_callable h) x d = io_unit (numerical_derivative h x d)"
  by (simp add: numerical_derivative_io_def numerical_derivative_def io_pure split: sum.splits)

lemma bisection_body_io_pure:
  "bisection_body_io (pure_callable h) tol j t = io_unit (bisection_body h tol j t)"
  by (cases t) (simp add: io_pure split: sum.splits)

lemma bisection_io_pure:
  "bisection_io (pure_callable h) a b tol m = io_unit (bisection h a b tol m)"
  by (simp add: bisection_io_def bisection_def io_pure
      for_range_io_pure[of "bisection_body_io (pure_callable h) tol" "bisection_body h tol",
        OF bisection_body_io_pure]
      split: sum.splits)

lemma regula_falsi_body_io_pure:
  "regula_falsi_body_io (pure_callable h) tol j t = io_unit (regula_falsi_body h tol j t)"
  by (cases t) (simp add: io_pure split: sum.splits)

lemma regula_falsi_io_pure:
  "regula_falsi_io (pure_callable h) a b tol m = io_unit (regula_falsi h a b tol m)"
  by (simp add: regula_falsi_io_def regula_falsi_def io_pure
      for_range_io_pure[of "regula_falsi_body_io (pure_callable h) tol" "regula_falsi_body h tol",
        OF regula_falsi_body_io_pure]
      split: sum.splits)

lemma secant_body_io_pure:
  "secant_body_io (pure_callable h) tol j t = io_unit (secant_body h tol j t)"
  by (cases t) (simp add: io_pure split: sum.splits)

lemma secant_io_pure:
  "secant_io (pure_callable h) x0 x1 tol m = io_unit (secant h x0 x1 tol m)"
  by (simp add: secant_io_def secant_def io_pure
      for_range_io_pure[of "secant_body_io (pure_callable h) tol" "secant_body h tol",
        OF secant_body_io_pure])

lemma newton_raphson_body_io_pure:
  "newton_raphson_body_io (pure_callable h) tol j t = io_unit (newton_raphson_body h tol j t)"
  by (cases t) (simp add: io_pure numerical_derivative_io_pure split: sum.splits)

lemma newton_raphson_io_pure:
  "newton_raphson_io (pure_callable h) x0 tol m = io_unit (newton_raphson h x0 tol m)"
  by (simp add: newton_raphson_io_def newton_raphson_def io_pure
      for_range_io_pure[of "newton_raphson_body_io (pure_callable h) tol" "newton_raphson_body h tol",
        OF newton_raphson_body_io_pure])

lemma fixed_point_iteration_body_io_pure:
  "fixed_point_iteration_body_io (pure_callable h) tol j t =
     io_unit (fixed_point_iteration_body h tol j t)"
  by (cases t) (simp add: io_pure split: sum.splits)

lemma fixed_point_iteration_io_pure:
  "fixed_point_iteration_io (pure_callable h) x0 tol m = io_unit (fixed_point_iteration h x0 tol m)"
  by (simp add: fixed_point_iteration_io_def fixed_point_iteration_def io_pure
      for_range_io_pure[of "fixed_point_iteration_body_io (pure_callable h) tol"
        "fixed_point_iteration_body h tol", OF fixed_point_iteration_body_io_pure])

lemma modified_secant_body_io_pure:
  "modified_secant_body_io (pure_callable h) delta tol j t =
     io_unit (modified_secant_body h delta tol j t)"
  by (cases t) (simp add: io_pure numerical_derivative_io_pure split: sum.splits)

lemma modified_secant_io_pure:
  "modified_secant_io (pure_callable h) x0 delta tol m = io_unit (modified_secant h x0 delta tol m)"
  by (simp add: modified_secant_io_def modified_secant_def io_pure
      for_range_io_pure[of "modified_secant_body_io (pure_callable h) delta tol"
        "modified_secant_body h delta tol", OF modified_secant_body_io_pure])

lemma ticking_runs_differ:
  "fst (bisection_io ticking 0 2 (1 / 10) 100 0) \<noteq> fst (bisection_io ticking 0 2 (1 / 10) 100 1)"
  by code_simp

section \<open>The claims\<close>







text \<open>
  Claim C4, as stated, fails: the method functions declare a default for
  \<^verbatim>\<open>max_iter\<close> only. A call that leaves out \<^verbatim>\<open>tol\<close> (or \<^verbatim>\<open>delta\<close>) does not run
  with \<open>1e-6\<close> (or \<open>1e-3\<close>); it raises a \<^verbatim>\<open>TypeError\<close>.
\<close>

theorem tolerance_default_counterexample:
  "bisection_call f_lin 0 2 None None \<noteq> bisection f_lin 0 2 (1 / 1000000) 100 \<and>
   modified_secant_call f_lin 1 None (Some (1 / 1000000)) None \<noteq>
     modified_secant f_lin 1 (1 / 1000) (1 / 1000000) 100"
proof -
  have "bisection f_lin 0 2 (1 / 1000000) 100 \<noteq> Inl (missing ''bisection'' ''tol'')"
    using bisection_error[of f_lin 0 2 "1 / 1000000" 100 "missing ''bisection'' ''tol''"]
    by (auto simp: missing_def)
  moreover have "modified_secant f_lin 1 (1 / 1000) (1 / 1000000) 100 \<noteq>
      Inl (missing ''modified_secant'' ''delta'')"
    using modified_secant_error[of f_lin 1 "1 / 1000" "1 / 1000000" 100
        "missing ''modified_secant'' ''delta''"]
    by (auto simp: missing_def)
  ultimately show ?thesis
    by (simp add: bisection_call_def modified_secant_call_def)
qed

text \<open>
  Claim C4, amended. A call that leaves out \<^verbatim>\<open>max_iter\<close> runs with 100 passes at
  most, in each of the six method functions; a call that leaves out \<^verbatim>\<open>tol\<close>, or
  \<^verbatim>\<open>delta\<close> in modified secant, raises a \<^verbatim>\<open>TypeError\<close>.
\<close>

theorem signature_defaults:
  "bisection_call f a b (Some tol) None = bisection f a b tol 100 \<and>
   regula_falsi_call f a b (Some tol) None = regula_falsi f a b tol 100 \<and>
   secant_call f x0 x1 (Some tol) None = secant f x0 x1 tol 100 \<and>
   newton_raphson_call f x0 (Some tol) None = newton_raphson f x0 tol 100 \<and>
   fixed_point_iteration_call g x0 (Some tol) None = fixed_point_iteration g x0 tol 100 \<and>
   modified_secant_call f x0 (Some delta) (Some tol) None = modified_secant f x0 delta tol 100 \<and>
   bisection_call f a b None mi = Inl (missing ''bisection'' ''tol'') \<and>
   regula_falsi_call f a b None mi = Inl (missing ''regula_falsi'' ''tol'') \<and>
   secant_call f x0 x1 None mi = Inl (missing ''secant'' ''tol'') \<and>
   newton_raphson_call f x0 None mi = Inl (missing ''newton_raphson'' ''tol'') \<and>
   fixed_point_iteration_call g x0 None mi = Inl (missing ''fixed_point_iteration'' ''tol'') \<and>
   modified_secant_call f x0 (Some delta) None mi = Inl (missing ''modified_secant'' ''tol'') \<and>
   modified_secant_call f x0 None (Some tol) mi = Inl (missing ''modified_secant'' ''delta'')"
  by (simp add: bisection_call_def regula_falsi_call_def secant_call_def newton_raphson_call_def
      fixed_point_iteration_call_def modified_secant_call_def default_max_iter_def)








text \<open>
  Claim C8. The trace of a returned call has as many rows as the returned iteration
  count, and the rows carry the indices \<open>1, 2, \<dots>, n\<close> in this order.
\<close>

theorem trace_one_row_per_pass:
  "(bisection f a b tol m = Inr r \<longrightarrow> one_row_per_pass r) \<and>
   (regula_falsi f a b tol m = Inr r \<longrightarrow> one_row_per_pass r) \<and>
   (secant f x0 x1 tol m = Inr r \<longrightarrow> one_row_per_pass r) \<and>
   (newton_raphson f x0 tol m = Inr r \<longrightarrow> one_row_per_pass r) \<and>
   (fixed_point_iteration g x0 tol m = Inr r \<longrightarrow> one_row_per_pass r) \<and>
   (modified_secant f x0 delta tol m = Inr r \<longrightarrow> one_row_per_pass r)"
  using bisection_run_ok[of f a b tol m r] regula_falsi_run_ok[of f a b tol m r]
    secant_run_ok[of f x0 x1 tol m r] newton_raphson_run_ok[of f x0 tol m r]
    modified_secant_run_ok[of f x0 delta tol m r] fixed_point_iteration_run_ok[of g x0 tol m r]
    run_ok_rows
  by blast

theorem trace_one_row_per_pass_witness:
  "one_row_per_pass
     (23 / 16, Fin (1 / 16), 5,
      [(1, 1, Some (- 1), Fin 1), (2, 3 / 2, Some (1 / 4), Fin (1 / 2)),
       (3, 5 / 4, Some (- (7 / 16)), Fin (1 / 4)),
       (4, 11 / 8, Some (- (7 / 64)), Fin (1 / 8)),
       (5, 23 / 16, Some (17 / 256), Fin (1 / 16))]) \<and>
   one_row_per_pass
     (7 / 5, Fin (1 / 15), 3,
      [(1, 1, Some (- 1), PInf), (2, 4 / 3, Some (- (2 / 9)), Fin (1 / 3)),
       (3, 7 / 5, Some (- (1 / 25)), Fin (1 / 15))]) \<and>
   one_row_per_pass
     (10 / 7, Fin (2 / 21), 3,
      [(1, 1, Some (- 1), Fin 1), (2, 4 / 3, Some (- (2 / 9)), Fin (1 / 3)),
       (3, 10 / 7, Some (2 / 49), Fin (2 / 21))]) \<and>
   one_row_per_pass
     (17 / 12, Fin (1 / 12), 2,
      [(1, 3 / 2, Some (1 / 4), Fin (1 / 2)), (2, 17 / 12, Some (1 / 144), Fin (1 / 12))]) \<and>
   one_row_per_pass
     (31 / 16, Fin (1 / 16), 5,
      [(1, 1, None, Fin 1), (2, 3 / 2, None, Fin (1 / 2)), (3, 7 / 4, None, Fin (1 / 4)),
       (4, 15 / 8, None, Fin (1 / 8)), (5, 31 / 16, None, Fin (1 / 16))]) \<and>
   one_row_per_pass
     (25 / 18, Fin (1 / 18), 2,
      [(1, 4 / 3, Some (- (2 / 9)), Fin (1 / 3)),
       (2, 25 / 18, Some (- (23 / 324)), Fin (1 / 18))])"
proof -
  note c = trace_one_row_per_pass[where tol = "1 / 10" and m = 100]
  show ?thesis
    using c[where f = f_sq2 and a = 0 and b = 2, THEN conjunct1, rule_format,
        OF run_bisection_sq2]
      c[where f = f_sq2 and a = 0 and b = 2, THEN conjunct2, THEN conjunct1, rule_format,
        OF run_regula_falsi_sq2]
      c[where f = f_sq2 and ?x0.0 = 0 and ?x1.0 = 2, THEN conjunct2, THEN conjunct2,
        THEN conjunct1, rule_format, OF run_secant_sq2]
      c[where f = f_sq2 and ?x0.0 = 1, THEN conjunct2, THEN conjunct2, THEN conjunct2,
        THEN conjunct1, rule_format, OF run_newton_raphson_sq2]
      c[where g = g_half and ?x0.0 = 0, THEN conjunct2, THEN conjunct2, THEN conjunct2,
        THEN conjunct2, THEN conjunct1, rule_format, OF run_fixed_point_half]
      c[where f = f_sq2 and ?x0.0 = 1 and delta = 1, THEN conjunct2, THEN conjunct2,
        THEN conjunct2, THEN conjunct2, THEN conjunct2, rule_format,
        OF run_modified_secant_sq2]
    by blast
qed

text \<open>
  Claim C9. With \<open>max_iter \<le> 0\<close> no method returns a result. Secant fails on the
  unassigned \<^verbatim>\<open>x2\<close>; Newton-Raphson, fixed-point iteration and modified secant on the
  unassigned \<^verbatim>\<open>err\<close>; bisection on \<^verbatim>\<open>c\<close> and regula falsi on \<^verbatim>\<open>err\<close>, unless the
  code before their loop has already raised (an exception of \<open>f\<close>, or the invalid
  bracket).
\<close>

theorem no_pass_no_result:
  assumes "m \<le> 0"
  shows
  "bisection f a b tol m =
     (case f a of Inl e \<Rightarrow> Inl (Raised e) | Inr fa \<Rightarrow>
        (case f b of Inl e \<Rightarrow> Inl (Raised e) | Inr fb \<Rightarrow>
           if fa * fb > 0 then Inl InvalidBracket else Inl (UnboundLocalError ''c''))) \<and>
   regula_falsi f a b tol m =
     (case f a of Inl e \<Rightarrow> Inl (Raised e) | Inr fa \<Rightarrow>
        (case f b of Inl e \<Rightarrow> Inl (Raised e) | Inr fb \<Rightarrow>
           if fa * fb > 0 then Inl InvalidBracket else Inl (UnboundLocalError ''err''))) \<and>
   secant f x0 x1 tol m = Inl (UnboundLocalError ''x2'') \<and>
   newton_raphson f x0 tol m = Inl (UnboundLocalError ''err'') \<and>
   fixed_point_iteration g x0 tol m = Inl (UnboundLocalError ''err'') \<and>
   modified_secant f x0 delta tol m = Inl (UnboundLocalError ''err'') \<and>
   isl (bisection f a b tol m) \<and> isl (regula_falsi f a b tol m)"
proof -
  have 1: "bisection f a b tol m =
     (case f a of Inl e \<Rightarrow> Inl (Raised e) | Inr fa \<Rightarrow>
        (case f b of Inl e \<Rightarrow> Inl (Raised e) | Inr fb \<Rightarrow>
           if fa * fb > 0 then Inl InvalidBracket else Inl (UnboundLocalError ''c'')))"
    by (simp add: bisection_def and_then_def call_def loop_skipped[OF assms] split: sum.splits)
  have 2: "regula_falsi f a b tol m =
     (case f a of Inl e \<Rightarrow> Inl (Raised e) | Inr fa \<Rightarrow>
        (case f b of Inl e \<Rightarrow> Inl (Raised e) | Inr fb \<Rightarrow>
           if fa * fb > 0 then Inl InvalidBracket else Inl (UnboundLocalError ''err'')))"
    by (simp add: regula_falsi_def and_then_def call_def loop_skipped[OF assms] split: sum.splits)
  have 3: "secant f x0 x1 tol m = Inl (UnboundLocalError ''x2'')"
    by (simp add: secant_def loop_skipped[OF assms])
  have 4: "newton_raphson f x0 tol m = Inl (UnboundLocalError ''err'')"
    by (simp add: newton_raphson_def loop_skipped[OF assms])
  have 5: "fixed_point_iteration g x0 tol m = Inl (UnboundLocalError ''err'')"
    by (simp add: fixed_point_iteration_def loop_skipped[OF assms])
  have 6: "modified_secant f x0 delta tol m = Inl (UnboundLocalError ''err'')"
    by (simp add: modified_secant_def loop_skipped[OF assms])
  have 7: "isl (bisection f a b tol m)"
    by (simp add: 1 split: sum.splits)
  have 8: "isl (regula_falsi f a b tol m)"
    by (simp add: 2 split: sum.splits)
  from 1 2 3 4 5 6 7 8 show ?thesis by blast
qed

theorem no_pass_no_result_witness:
  "(0::int) \<le> 0 \<and>
   bisection f_sq2 0 2 (1 / 10) 0 = Inl (UnboundLocalError ''c'') \<and>
   regula_falsi f_sq2 0 2 (1 / 10) 0 = Inl (UnboundLocalError ''err'') \<and>
   bisection f_sq2 2 3 (1 / 10) 0 = Inl InvalidBracket \<and>
   secant f_sq2 0 2 (1 / 10) 0 = Inl (UnboundLocalError ''x2'') \<and>
   newton_raphson f_sq2 1 (1 / 10) 0 = Inl (UnboundLocalError ''err'') \<and>
   fixed_point_iteration g_half 0 (1 / 10) 0 = Inl (UnboundLocalError ''err'') \<and>
   modified_secant f_sq2 1 1 (1 / 10) 0 = Inl (UnboundLocalError ''err'')"
proof -
  have m: "(0::int) \<le> 0" by simp
  note n = no_pass_no_result[OF m, where tol = "1 / 10"]
  from n[where f = f_sq2 and a = 0 and b = 2 and ?x0.0 = 0 and ?x1.0 = 2 and g = g_half
        and delta = 1]
    n[where f = f_sq2 and a = 2 and b = 3 and ?x0.0 = 1 and ?x1.0 = 2 and g = g_half
        and delta = 1]
  show ?thesis by (simp add: f_sq2_def)
qed

text \<open>
  Claim C10. For pure callables and identical arguments, the result of each method (the
  returned estimate, error, iteration count and trace, or the exception) is the same from
  any two states of the world the runs start in: nothing but the arguments enters a run.
  (By \<open>ticking_runs_differ\<close> the statement is not empty: the runs of a callable that
  is not pure do differ.)
\<close>

theorem runs_are_deterministic:
  assumes "is_pure f" and "is_pure g"
  shows
  "fst (bisection_io f a b tol m w) = fst (bisection_io f a b tol m w') \<and>
   fst (regula_falsi_io f a b tol m w) = fst (regula_falsi_io f a b tol m w') \<and>
   fst (secant_io f x0 x1 tol m w) = fst (secant_io f x0 x1 tol m w') \<and>
   fst (newton_raphson_io f x0 tol m w) = fst (newton_raphson_io f x0 tol m w') \<and>
   fst (fixed_point_iteration_io g x0 tol m w) = fst (fixed_point_iteration_io g x0 tol m w') \<and>
   fst (modified_secant_io f x0 delta tol m w) = fst (modified_secant_io f x0 delta tol m w')"
proof -
  from assms(1) obtain h where f: "f = pure_callable h" by (rule is_pure_callable)
  from assms(2) obtain k where g: "g = pure_callable k" by (rule is_pure_callable)
  show ?thesis
    unfolding f g bisection_io_pure regula_falsi_io_pure secant_io_pure newton_raphson_io_pure
      fixed_point_iteration_io_pure modified_secant_io_pure
    by (simp add: io_unit_def)
qed

theorem runs_are_deterministic_witness:
  "is_pure (pure_callable f_sq2 :: (nat, unit) callable) \<and>
   is_pure (pure_callable g_half :: (nat, unit) callable) \<and>
   fst (bisection_io (pure_callable f_sq2) 0 2 (1 / 10) 100 (0::nat)) =
     fst (bisection_io (pure_callable f_sq2) 0 2 (1 / 10) 100 (7::nat)) \<and>
   fst (fixed_point_iteration_io (pure_callable g_half) 0 (1 / 10) 100 (0::nat)) =
     fst (fixed_point_iteration_io (pure_callable g_half) 0 (1 / 10) 100 (7::nat))"
proof -
  have p: "is_pure (pure_callable f_sq2 :: (nat, unit) callable)"
    by (simp add: is_pure_def pure_callable_def)
  have q: "is_pure (pure_callable g_half :: (nat, unit) callable)"
    by (simp add: is_pure_def pure_callable_def)
  from runs_are_deterministic[OF p q, where a = 0 and b = 2 and tol = "1 / 10" and m = 100
      and w = 0 and w' = 7 and ?x0.0 = 0] p q
  show ?thesis by blast
qed

end
